theory Spec2Isabelle
  imports Complex_Main "HOL-Library.Word"
begin

section \<open>K-Means clustering engine (kmeans\_impl.hpp)\<close>

text \<open>
  A shallow embedding of \<^verbatim>\<open>KMeans::Cluster\<close> (mlpack 2.0.2,
  \<^verbatim>\<open>src/mlpack/methods/kmeans/kmeans_impl.hpp\<close>).

  Conventions of the embedding.
  \<^item> A \<^verbatim>\<open>double\<close> that the engine compares or classifies (a distance, the residual
    \<^verbatim>\<open>cNorm\<close>) is a value of the datatype \<open>double\<close>: a finite real, one of the two
    infinities, or NaN. Comparison follows IEEE 754 (every comparison with NaN is false).
  \<^item> A matrix is its row count and the list of its columns, as Armadillo stores it column
    by column. The type \<open>'a\<close> of its entries and the arithmetic on them (Armadillo's, on
    \<^verbatim>\<open>double\<close>) are parameters: the engine itself only zeroes a matrix, adds a column
    to a column and divides a column by a count, and nothing is assumed of these
    operations, so that they may round and overflow as binary64 does.
  \<^item> \<^verbatim>\<open>size_t\<close> values that index or count (cluster indices, counts, the number of
    clusters) are naturals: they are bounded by sizes of objects in memory. The iteration
    counter and \<^verbatim>\<open>maxIterations\<close> are 64-bit words, because the loop test
    \<^verbatim>\<open>iteration != maxIterations\<close> depends on wrap-around when \<^verbatim>\<open>maxIterations\<close> is 0.
  \<^item> The policy classes (the template parameters) are function parameters. Their calls
    thread a policy state \<open>'s\<close> (random generators, caches of a Lloyd step).
  \<^item> An abort (the exception \<^verbatim>\<open>Log::Fatal\<close> throws, an index out of range) is the
    \<open>Inl\<close> of a sum, carrying the output buffers as they stand at the abort.
\<close>

subsection \<open>Doubles\<close>

datatype double = Finite real | PInf | NInf | NaN

fun isnan :: "double \<Rightarrow> bool" where
  "isnan NaN = True"
| "isnan _ = False"

fun isinf :: "double \<Rightarrow> bool" where
  "isinf PInf = True"
| "isinf NInf = True"
| "isinf _ = False"

text \<open>\<^verbatim>\<open>a < b\<close> on doubles.\<close>

fun dless :: "double \<Rightarrow> double \<Rightarrow> bool" where
  "dless NaN _ = False"
| "dless _ NaN = False"
| "dless PInf _ = False"
| "dless _ NInf = False"
| "dless NInf _ = True"
| "dless (Finite a) PInf = True"
| "dless (Finite a) (Finite b) = (a < b)"

subsection \<open>Matrices\<close>

record 'a mat =
  n_rows :: nat
  cols :: "'a list list"

definition n_cols :: "'a mat \<Rightarrow> nat" where
  "n_cols m = length (cols m)"

text \<open>
  The arithmetic of the entries, which is Armadillo's and the hardware's and not among the
  sources: the entry \<^verbatim>\<open>zeros\<close> fills in, the addition behind \<^verbatim>\<open>+=\<close> and the division
  of an entry by a count (converted to the entry type) behind \<^verbatim>\<open>/=\<close>.
\<close>

record 'a arith =
  ar_zero :: 'a
  ar_add :: "'a \<Rightarrow> 'a \<Rightarrow> 'a"
  ar_div :: "'a \<Rightarrow> nat \<Rightarrow> 'a"

text \<open>\<^verbatim>\<open>m.zeros(r, c)\<close>: resize to \<open>r\<close> by \<open>c\<close> and fill with zeros.\<close>

definition zeros :: "'a arith \<Rightarrow> nat \<Rightarrow> nat \<Rightarrow> 'a mat" where
  "zeros ar r c = \<lparr>n_rows = r, cols = replicate c (replicate r (ar_zero ar))\<rparr>"

text \<open>\<^verbatim>\<open>arma::mat m;\<close>: the empty matrix.\<close>

definition empty_mat :: "'a mat" where
  "empty_mat = \<lparr>n_rows = 0, cols = []\<rparr>"

text \<open>\<^verbatim>\<open>m.col(k) += v\<close> and \<^verbatim>\<open>m.col(k) /= c\<close>, for \<open>k\<close> in range.\<close>

definition col_add :: "'a arith \<Rightarrow> 'a mat \<Rightarrow> nat \<Rightarrow> 'a list \<Rightarrow> 'a mat" where
  "col_add ar m k v = m\<lparr>cols := (cols m)[k := map2 (ar_add ar) (cols m ! k) v]\<rparr>"

definition col_div :: "'a arith \<Rightarrow> 'a mat \<Rightarrow> nat \<Rightarrow> nat \<Rightarrow> 'a mat" where
  "col_div ar m k c = m\<lparr>cols := (cols m)[k := map (\<lambda>x. ar_div ar x c) (cols m ! k)]\<rparr>"

text \<open>Every column of a well-formed matrix has \<open>n_rows\<close> entries.\<close>

definition wf_mat :: "'a mat \<Rightarrow> bool" where
  "wf_mat m = list_all (\<lambda>c. length c = n_rows m) (cols m)"

subsection \<open>Policies, configuration and state\<close>

type_synonym 'a metric_fn = "'a list \<Rightarrow> 'a list \<Rightarrow> double"

text \<open>
  \<^verbatim>\<open>InitialPartitionPolicy\<close>: \<^verbatim>\<open>GivesCentroids<...>::value\<close> tells at compile time
  whether \<^verbatim>\<open>Cluster(data, clusters, assignments)\<close> or
  \<^verbatim>\<open>Cluster(data, clusters, centroids)\<close> is the member the policy has. The first fills
  a fresh assignment row; the second works on the caller's centroid matrix.
\<close>

datatype ('a, 's) InitialPartitionPolicy =
  GivesAssignments "'s \<Rightarrow> 'a mat \<Rightarrow> nat \<Rightarrow> nat list \<times> 's"
| GivesCentroids "'s \<Rightarrow> 'a mat \<Rightarrow> nat \<Rightarrow> 'a mat \<Rightarrow> 'a mat \<times> 's"

text \<open>
  The members of \<^verbatim>\<open>KMeans\<close> and its \<^verbatim>\<open>LloydStepType\<close>.
  \<^item> \<open>lloydStep s data metric centroids newCentroids counts\<close> is
    \<^verbatim>\<open>LloydStepType(data, metric).Iterate(centroids, newCentroids, counts)\<close>: it returns
    the residual, the new contents of \<^verbatim>\<open>newCentroids\<close> and of \<^verbatim>\<open>counts\<close>.
  \<^item> \<open>emptyClusterAction s data i oldCentroids newCentroids counts metric iteration\<close> is
    \<^verbatim>\<open>EmptyCluster(...)\<close>: it returns the new contents of \<^verbatim>\<open>newCentroids\<close> and of
    \<^verbatim>\<open>counts\<close>.
\<close>

record ('a, 's) KMeans =
  maxIterations :: "64 word"
  metric :: "'a metric_fn"
  partitioner :: "('a, 's) InitialPartitionPolicy"
  emptyClusterAction ::
    "'s \<Rightarrow> 'a mat \<Rightarrow> nat \<Rightarrow> 'a mat \<Rightarrow> 'a mat \<Rightarrow> nat list \<Rightarrow> 'a metric_fn \<Rightarrow> 64 word \<Rightarrow> 'a mat \<times> nat list \<times> 's"
  lloydStep ::
    "'s \<Rightarrow> 'a mat \<Rightarrow> 'a metric_fn \<Rightarrow> 'a mat \<Rightarrow> 'a mat \<Rightarrow> nat list \<Rightarrow> double \<times> 'a mat \<times> nat list \<times> 's"

datatype warning = MoreClustersThanPoints | ZeroClusters

datatype fatal = WrongNumberOfCentroids | WrongDimensionality | WrongAssignmentsSize

datatype error = Fatal fatal | OutOfBounds | AssertFailed

text \<open>The locals of \<^verbatim>\<open>Cluster\<close> that live across iterations, and the policy state.\<close>

record ('a, 's) kstate =
  centroids :: "'a mat"
  centroidsOther :: "'a mat"
  counts :: "nat list"
  iteration :: "64 word"
  policy :: 's

subsection \<open>Configuration checks (lines 163--183)\<close>

definition config_warnings :: "'a mat \<Rightarrow> nat \<Rightarrow> warning list" where
  "config_warnings data clusters =
     (if clusters > n_cols data then [MoreClustersThanPoints]
      else if clusters = 0 then [ZeroClusters]
      else [])"

text \<open>
  Modelled from the spec: \<^verbatim>\<open>Log::Fatal\<close>, whose class is not among the sources,
  aborts the call when its line ends (section 7: a configuration error aborts before any
  iteration). So the first failing check decides.
\<close>

definition check_guess :: "'a mat \<Rightarrow> nat \<Rightarrow> 'a mat \<Rightarrow> fatal option" where
  "check_guess data clusters guess =
     (if n_cols guess \<noteq> clusters then Some WrongNumberOfCentroids
      else if n_rows guess \<noteq> n_rows data then Some WrongDimensionality
      else None)"

subsection \<open>Centroids from assignments (lines 200--211 and 308--319)\<close>

text \<open>
  The first loop adds every point to the column of its cluster and counts it. The source
  reads \<^verbatim>\<open>assignments[i]\<close> and writes column \<^verbatim>\<open>assignments[i]\<close> with no check of its
  own; out of range the model aborts with \<open>OutOfBounds\<close>.
\<close>

function accumulate ::
  "'a arith \<Rightarrow> 'a mat \<Rightarrow> nat list \<Rightarrow> nat \<Rightarrow> 'a mat \<Rightarrow> nat list \<Rightarrow> (error \<times> 'a mat) + ('a mat \<times> nat list)" where
  "accumulate ar data assignments i cs cnt =
     (if i < n_cols data then
        (if i < length assignments \<and> assignments ! i < n_cols cs
            \<and> assignments ! i < length cnt then
           accumulate ar data assignments (i + 1)
             (col_add ar cs (assignments ! i) (cols data ! i))
             (cnt[assignments ! i := cnt ! (assignments ! i) + 1])
         else Inl (OutOfBounds, cs))
      else Inr (cs, cnt))"
  by pat_completeness auto
termination
  by (relation "measure (\<lambda>(ar, data, assignments, i, cs, cnt). n_cols data - i)") auto

declare accumulate.simps [simp del]

text \<open>The second loop divides every column with a non-zero count by its count.\<close>

function divide_by_counts :: "'a arith \<Rightarrow> nat \<Rightarrow> nat \<Rightarrow> nat list \<Rightarrow> 'a mat \<Rightarrow> 'a mat" where
  "divide_by_counts ar clusters i cnt cs =
     (if i < clusters then
        divide_by_counts ar clusters (i + 1) cnt
          (if cnt ! i \<noteq> 0 then col_div ar cs i (cnt ! i) else cs)
      else cs)"
  by pat_completeness auto
termination
  by (relation "measure (\<lambda>(ar, clusters, i, cnt, cs). clusters - i)") auto

declare divide_by_counts.simps [simp del]

definition centroids_from_assignments ::
  "'a arith \<Rightarrow> 'a mat \<Rightarrow> nat \<Rightarrow> nat list \<Rightarrow> (error \<times> 'a mat) + 'a mat" where
  "centroids_from_assignments ar data clusters assignments =
     (case accumulate ar data assignments 0 (zeros ar (n_rows data) clusters)
             (replicate clusters 0) of
        Inl e \<Rightarrow> Inl e
      | Inr (cs, cnt) \<Rightarrow> Inr (divide_by_counts ar clusters 0 cnt cs))"

subsection \<open>Initial centroids (lines 171--213)\<close>

definition GetInitialAssignmentsOrCentroids ::
  "('a, 's) InitialPartitionPolicy \<Rightarrow> 's \<Rightarrow> 'a mat \<Rightarrow> nat \<Rightarrow> nat list \<Rightarrow> 'a mat
     \<Rightarrow> bool \<times> nat list \<times> 'a mat \<times> 's" where
  "GetInitialAssignmentsOrCentroids ipp s data clusters assignments cs =
     (case ipp of
        GivesAssignments f \<Rightarrow> (let (a, s') = f s data clusters in (True, a, cs, s'))
      | GivesCentroids g \<Rightarrow> (let (c, s') = g s data clusters cs in (False, assignments, c, s')))"

definition initial_centroids ::
  "'a arith \<Rightarrow> ('a, 's) KMeans \<Rightarrow> 's \<Rightarrow> 'a mat \<Rightarrow> nat \<Rightarrow> 'a mat \<Rightarrow> bool \<Rightarrow> (error \<times> 'a mat) + ('a mat \<times> 's)" where
  "initial_centroids ar km s data clusters guess initialGuess =
     (if initialGuess then
        (case check_guess data clusters guess of
           Some f \<Rightarrow> Inl (Fatal f, guess)
         | None \<Rightarrow> Inr (guess, s))
      else
        (let (gotAssignments, assignments, cs, s') =
               GetInitialAssignmentsOrCentroids (partitioner km) s data clusters [] guess
         in if gotAssignments then
              (case centroids_from_assignments ar data clusters assignments of
                 Inl e \<Rightarrow> Inl e
               | Inr cs' \<Rightarrow> Inr (cs', s'))
            else Inr (cs, s')))"

subsection \<open>The convergence loop (lines 215--255)\<close>

text \<open>
  The empty-cluster scan of one iteration. \<^verbatim>\<open>counts[i]\<close> is read with no check; the
  model aborts when a policy has left \<^verbatim>\<open>counts\<close> shorter than \<^verbatim>\<open>clusters\<close>.
\<close>

function empty_clusters ::
  "('a, 's) KMeans \<Rightarrow> 'a mat \<Rightarrow> nat \<Rightarrow> nat \<Rightarrow> ('a, 's) kstate \<Rightarrow> (error \<times> ('a, 's) kstate) + ('a, 's) kstate" where
  "empty_clusters km data clusters i st =
     (if i < clusters then
        (if i < length (counts st) then
           (if counts st ! i = 0 then
              (if iteration st mod 2 = 0 then
                 (let (new, cnt, s) = emptyClusterAction km (policy st) data i
                        (centroids st) (centroidsOther st) (counts st) (metric km) (iteration st)
                  in empty_clusters km data clusters (i + 1)
                       (st\<lparr>centroidsOther := new, counts := cnt, policy := s\<rparr>))
               else
                 (let (new, cnt, s) = emptyClusterAction km (policy st) data i
                        (centroidsOther st) (centroids st) (counts st) (metric km) (iteration st)
                  in empty_clusters km data clusters (i + 1)
                       (st\<lparr>centroids := new, counts := cnt, policy := s\<rparr>)))
            else empty_clusters km data clusters (i + 1) st)
         else Inl (OutOfBounds, st))
      else Inr st)"
  by pat_completeness auto
termination
  by (relation "measure (\<lambda>(km, data, clusters, i, st). clusters - i)") auto

declare empty_clusters.simps [simp del]

text \<open>
  The literals \<^verbatim>\<open>1e-5\<close> and \<^verbatim>\<open>1e-4\<close> of the loop are the binary64 numbers nearest to
  \<open>10\<^sup>-\<^sup>5\<close> and \<open>10\<^sup>-\<^sup>4\<close>: \<^verbatim>\<open>0x1.4f8b588e368f1p-17\<close> and \<^verbatim>\<open>0x1.a36e2eb1c432dp-14\<close>,
  that is \<open>5902958103587057 / 2\<^sup>6\<^sup>9\<close> and \<open>7378697629483821 / 2\<^sup>6\<^sup>6\<close>.
\<close>

definition threshold :: real where
  "threshold = 5902958103587057 / 590295810358705651712"

definition sentinel :: real where
  "sentinel = 7378697629483821 / 73786976294838206464"

text \<open>\<^verbatim>\<open>if (std::isnan(cNorm) || std::isinf(cNorm)) cNorm = 1e-4;\<close>\<close>

definition clamp_residual :: "double \<Rightarrow> double" where
  "clamp_residual cNorm = (if isnan cNorm \<or> isinf cNorm then Finite sentinel else cNorm)"

text \<open>The call of \<^verbatim>\<open>Iterate\<close> at the head of the loop body (lines 228--231).\<close>

definition lloyd_iterate :: "('a, 's) KMeans \<Rightarrow> 'a mat \<Rightarrow> ('a, 's) kstate \<Rightarrow> double \<times> ('a, 's) kstate" where
  "lloyd_iterate km data st =
     (if iteration st mod 2 = 0 then
        (let (cNorm, new, cnt, s) =
               lloydStep km (policy st) data (metric km) (centroids st) (centroidsOther st) (counts st)
         in (cNorm, st\<lparr>centroidsOther := new, counts := cnt, policy := s\<rparr>))
      else
        (let (cNorm, new, cnt, s) =
               lloydStep km (policy st) data (metric km) (centroidsOther st) (centroids st) (counts st)
         in (cNorm, st\<lparr>centroids := new, counts := cnt, policy := s\<rparr>)))"

text \<open>
  One pass through the body of the \<^verbatim>\<open>do\<close> loop: the Lloyd step, the empty-cluster
  scan, the increment of the counter and the clamp. It returns the value of
  \<^verbatim>\<open>cNorm\<close> that the loop test reads.
\<close>

definition Cluster_body ::
  "('a, 's) KMeans \<Rightarrow> 'a mat \<Rightarrow> nat \<Rightarrow> ('a, 's) kstate \<Rightarrow> (error \<times> ('a, 's) kstate) + (double \<times> ('a, 's) kstate)" where
  "Cluster_body km data clusters st =
     (let (cNorm, st1) = lloyd_iterate km data st
      in case empty_clusters km data clusters 0 st1 of
           Inl e \<Rightarrow> Inl e
         | Inr st2 \<Rightarrow> Inr (clamp_residual cNorm, st2\<lparr>iteration := iteration st2 + 1\<rparr>))"

text \<open>\<^verbatim>\<open>while (cNorm > 1e-5 && iteration != maxIterations)\<close>\<close>

definition loop_test :: "('a, 's) KMeans \<Rightarrow> double \<Rightarrow> 64 word \<Rightarrow> bool" where
  "loop_test km cNorm it = (dless (Finite threshold) cNorm \<and> it \<noteq> maxIterations km)"

text \<open>The body increments the counter by one, whatever the policies do.\<close>

lemma empty_clusters_iteration:
  "empty_clusters km data clusters i st = Inr st' \<Longrightarrow> iteration st' = iteration st"
proof (induction km data clusters i st rule: empty_clusters.induct)
  case (1 km data clusters i st)
  show ?case
    using "1.prems" "1.IH"
    by (subst (asm) empty_clusters.simps)
       (auto split: if_splits prod.splits)
qed

lemma lloyd_iterate_iteration:
  "lloyd_iterate km data st = (r, st') \<Longrightarrow> iteration st' = iteration st"
  by (auto simp: lloyd_iterate_def split: if_splits prod.splits)

lemma Cluster_body_iteration:
  "Cluster_body km data clusters st = Inr (r, st') \<Longrightarrow> iteration st' = iteration st + 1"
  by (auto simp: Cluster_body_def split: prod.splits sum.splits
           dest!: empty_clusters_iteration lloyd_iterate_iteration)

lemma unat_pred_less: "x \<noteq> 0 \<Longrightarrow> unat (x - 1) < unat x" for x :: "64 word"
  by (simp add: unat_minus_one unat_gt_0)

text \<open>
  The \<^verbatim>\<open>do ... while\<close> loop: the body runs, then the test decides. The counter is a
  64-bit word, so the loop ends in every case: with \<^verbatim>\<open>maxIterations = 0\<close> the test
  \<^verbatim>\<open>iteration != maxIterations\<close> fails when the counter wraps around to 0.
\<close>

function Cluster_loop ::
  "('a, 's) KMeans \<Rightarrow> 'a mat \<Rightarrow> nat \<Rightarrow> ('a, 's) kstate \<Rightarrow> (error \<times> ('a, 's) kstate) + ('a, 's) kstate" where
  "Cluster_loop km data clusters st =
     (case Cluster_body km data clusters st of
        Inl e \<Rightarrow> Inl e
      | Inr (cNorm, st') \<Rightarrow>
          if loop_test km cNorm (iteration st') then Cluster_loop km data clusters st'
          else Inr st')"
  by pat_completeness auto
termination
proof (relation "measure (\<lambda>(km, data, clusters, st). unat (maxIterations km - iteration st - 1))")
  show "wf (measure (\<lambda>(km, data, clusters, st). unat (maxIterations km - iteration st - 1)))"
    by simp
next
  fix km :: "('a, 's) KMeans" and data clusters and st :: "('a, 's) kstate" and x cNorm st'
  assume b: "Cluster_body km data clusters st = Inr x" and x: "(cNorm, st') = x"
    and t: "loop_test km cNorm (iteration st')"
  from b x have it: "iteration st' = iteration st + 1"
    by (auto dest: Cluster_body_iteration)
  have "maxIterations km - iteration st - 1 \<noteq> 0"
  proof
    assume "maxIterations km - iteration st - 1 = 0"
    then have "maxIterations km = iteration st + 1"
      by (simp add: algebra_simps)
    with t it show False
      by (simp add: loop_test_def)
  qed
  from unat_pred_less [OF this] it
  show "((km, data, clusters, st'), (km, data, clusters, st))
          \<in> measure (\<lambda>(km, data, clusters, st). unat (maxIterations km - iteration st - 1))"
    by (simp add: diff_diff_eq add.commute)
qed

declare Cluster_loop.simps [simp del]

subsection \<open>\<^verbatim>\<open>Cluster(data, clusters, centroids, initialGuess)\<close> (lines 158--275)\<close>

text \<open>
  The state at the head of the loop. \<^verbatim>\<open>arma::Col<size_t> counts(clusters)\<close> leaves its
  elements uninitialised: \<open>uninit i\<close> stands for whatever element \<open>i\<close> holds.
\<close>

definition loop_entry :: "(nat \<Rightarrow> nat) \<Rightarrow> nat \<Rightarrow> 'a mat \<Rightarrow> 's \<Rightarrow> ('a, 's) kstate" where
  "loop_entry uninit clusters cs s =
     \<lparr>centroids = cs, centroidsOther = empty_mat, counts = map uninit [0..<clusters],
      iteration = 0, policy = s\<rparr>"

text \<open>
  \<^verbatim>\<open>if ((iteration - 1) % 2 == 0) centroids.steal_mem(centroidsOther);\<close>
  After \<^verbatim>\<open>steal_mem\<close> the source matrix is empty.
\<close>

definition steal :: "('a, 's) kstate \<Rightarrow> ('a, 's) kstate" where
  "steal st =
     (if (iteration st - 1) mod 2 = 0
      then st\<lparr>centroids := centroidsOther st, centroidsOther := empty_mat\<rparr>
      else st)"

text \<open>
  The result: the warnings logged, and either the abort with the caller's centroid
  matrix as it stands, or the final state, whose \<open>centroids\<close> is the caller's matrix on
  return and whose \<open>iteration\<close> is the count the last \<^verbatim>\<open>Log::Info\<close> line reports.
\<close>

definition Cluster_finish :: "(error \<times> ('a, 's) kstate) + ('a, 's) kstate \<Rightarrow> (error \<times> 'a mat) + ('a, 's) kstate" where
  "Cluster_finish r = (case r of Inl (e, st) \<Rightarrow> Inl (e, centroids st) | Inr st \<Rightarrow> Inr (steal st))"

definition Cluster ::
  "'a arith \<Rightarrow> ('a, 's) KMeans \<Rightarrow> 's \<Rightarrow> (nat \<Rightarrow> nat) \<Rightarrow> 'a mat \<Rightarrow> nat \<Rightarrow> 'a mat \<Rightarrow> bool
     \<Rightarrow> warning list \<times> ((error \<times> 'a mat) + ('a, 's) kstate)" where
  "Cluster ar km s uninit data clusters guess initialGuess =
     (config_warnings data clusters,
      case initial_centroids ar km s data clusters guess initialGuess of
        Inl e \<Rightarrow> Inl e
      | Inr (cs, s') \<Rightarrow>
          Cluster_finish (Cluster_loop km data clusters (loop_entry uninit clusters cs s')))"

subsection \<open>\<^verbatim>\<open>Cluster(data, clusters, assignments, centroids, ...)\<close> (lines 292--347)\<close>

text \<open>
  The scan over the centroids for one point (lines 330--342): \<^verbatim>\<open>minDistance\<close> starts
  at infinity and \<^verbatim>\<open>closestCluster\<close> at the invalid value \<^verbatim>\<open>centroids.n_cols\<close>.
\<close>

function closest_scan :: "'a metric_fn \<Rightarrow> 'a list \<Rightarrow> 'a mat \<Rightarrow> nat \<Rightarrow> double \<Rightarrow> nat \<Rightarrow> nat" where
  "closest_scan m point cs j minDistance closestCluster =
     (if j < n_cols cs then
        (let distance = m point (cols cs ! j)
         in if dless distance minDistance
            then closest_scan m point cs (j + 1) distance j
            else closest_scan m point cs (j + 1) minDistance closestCluster)
      else closestCluster)"
  by pat_completeness auto
termination
  by (relation "measure (\<lambda>(m, point, cs, j, minDistance, closestCluster). n_cols cs - j)") auto

declare closest_scan.simps [simp del]

definition closest :: "'a metric_fn \<Rightarrow> 'a list \<Rightarrow> 'a mat \<Rightarrow> nat" where
  "closest m point cs = closest_scan m point cs 0 PInf (n_cols cs)"

text \<open>
  \<^verbatim>\<open>assignments.set_size(n)\<close> keeps a row that has the size already and allocates
  uninitialised memory otherwise: \<open>fresh i\<close> stands for whatever element \<open>i\<close> holds.
\<close>

definition set_size :: "(nat \<Rightarrow> nat) \<Rightarrow> nat \<Rightarrow> nat list \<Rightarrow> nat list" where
  "set_size fresh n xs = (if length xs = n then xs else map fresh [0..<n])"

text \<open>
  The loop over the points (lines 327--346). \<^verbatim>\<open>Log::Assert\<close>, which is not among the
  sources, aborts in a debug build and does nothing otherwise: the parameter \<open>debug\<close> says
  which build runs.
\<close>

function final_assignments ::
  "bool \<Rightarrow> 'a metric_fn \<Rightarrow> 'a mat \<Rightarrow> 'a mat \<Rightarrow> nat \<Rightarrow> nat list \<Rightarrow> (error \<times> nat list) + nat list" where
  "final_assignments debug m data cs i assignments =
     (if i < n_cols data then
        (let closestCluster = closest m (cols data ! i) cs
         in if debug \<and> closestCluster = n_cols cs then Inl (AssertFailed, assignments)
            else final_assignments debug m data cs (i + 1) (assignments[i := closestCluster]))
      else Inr assignments)"
  by pat_completeness auto
termination
  by (relation "measure (\<lambda>(debug, m, data, cs, i, assignments). n_cols data - i)") auto

declare final_assignments.simps [simp del]

text \<open>
  Lines 322--346: the call of the centroid overload, then the final assignments. The
  uninitialised memory of the assignment row is not that of the counts: it is read from
  \<open>uninit\<close> past the \<open>clusters\<close> elements of the counts.
\<close>

definition Cluster_and_assign ::
  "'a arith \<Rightarrow> ('a, 's) KMeans \<Rightarrow> 's \<Rightarrow> (nat \<Rightarrow> nat) \<Rightarrow> bool \<Rightarrow> 'a mat \<Rightarrow> nat \<Rightarrow> nat list \<Rightarrow> 'a mat \<Rightarrow> bool
     \<Rightarrow> warning list \<times> ((error \<times> 'a mat \<times> nat list) + (('a, 's) kstate \<times> nat list))" where
  "Cluster_and_assign ar km s uninit debug data clusters assignments cs initialGuess =
     (case Cluster ar km s uninit data clusters cs initialGuess of
        (ws, Inl (e, c)) \<Rightarrow> (ws, Inl (e, c, assignments))
      | (ws, Inr st) \<Rightarrow>
          (ws, case final_assignments debug (metric km) data (centroids st) 0
                      (set_size (\<lambda>i. uninit (clusters + i)) (n_cols data) assignments) of
                 Inl (e, a) \<Rightarrow> Inl (e, centroids st, a)
               | Inr a \<Rightarrow> Inr (st, a)))"

text \<open>
  The whole overload. An abort carries the caller's centroid matrix and assignment row as
  they stand; a normal return carries the final state (its \<open>centroids\<close> is the caller's
  matrix) and the assignments.
\<close>

definition Cluster_assignments ::
  "'a arith \<Rightarrow> ('a, 's) KMeans \<Rightarrow> 's \<Rightarrow> (nat \<Rightarrow> nat) \<Rightarrow> bool \<Rightarrow> 'a mat \<Rightarrow> nat \<Rightarrow> nat list \<Rightarrow> 'a mat \<Rightarrow> bool \<Rightarrow> bool
     \<Rightarrow> warning list \<times> ((error \<times> 'a mat \<times> nat list) + (('a, 's) kstate \<times> nat list))" where
  "Cluster_assignments ar km s uninit debug data clusters assignments guess
       initialAssignmentGuess initialCentroidGuess =
     (if initialAssignmentGuess then
        (if length assignments \<noteq> n_cols data
         then ([], Inl (Fatal WrongAssignmentsSize, guess, assignments))
         else
           (case centroids_from_assignments ar data clusters assignments of
              Inl (e, c) \<Rightarrow> ([], Inl (e, c, assignments))
            | Inr c \<Rightarrow>
                Cluster_and_assign ar km s uninit debug data clusters assignments c
                  (initialAssignmentGuess \<or> initialCentroidGuess)))
      else
        Cluster_and_assign ar km s uninit debug data clusters assignments guess
          (initialAssignmentGuess \<or> initialCentroidGuess))"

section \<open>Definitions for the statements\<close>

subsection \<open>Iterations as a function\<close>

text \<open>
  One iteration as a function on outcomes, so that \<open>n\<close> iterations are its \<open>n\<close>-fold
  composition: an abort stays, a state goes through the body.
\<close>

definition Cluster_step ::
  "('a, 's) KMeans \<Rightarrow> 'a mat \<Rightarrow> nat \<Rightarrow> (error \<times> ('a, 's) kstate) + ('a, 's) kstate \<Rightarrow> (error \<times> ('a, 's) kstate) + ('a, 's) kstate" where
  "Cluster_step km data clusters r =
     (case r of
        Inl e \<Rightarrow> Inl e
      | Inr st \<Rightarrow>
          (case Cluster_body km data clusters st of
             Inl e \<Rightarrow> Inl e
           | Inr (cNorm, st') \<Rightarrow> Inr st'))"

subsection \<open>The loop with named buffer roles\<close>

text \<open>
  The loop as the specification words it: two buffers with the roles current and next.
  An iteration reads the current buffer and writes the next one (the Lloyd step, then the
  empty-cluster policy); then the roles swap, so the current buffer is always the one most
  recently written. In a state of this loop \<open>centroids\<close> holds the current buffer and
  \<open>centroidsOther\<close> the next one; on exit the current buffer is returned.
\<close>

function empty_clusters_roles ::
  "('a, 's) KMeans \<Rightarrow> 'a mat \<Rightarrow> nat \<Rightarrow> nat \<Rightarrow> ('a, 's) kstate \<Rightarrow> (error \<times> ('a, 's) kstate) + ('a, 's) kstate" where
  "empty_clusters_roles km data clusters i st =
     (if i < clusters then
        (if i < length (counts st) then
           (if counts st ! i = 0 then
              (let (new, cnt, s) = emptyClusterAction km (policy st) data i
                     (centroids st) (centroidsOther st) (counts st) (metric km) (iteration st)
               in empty_clusters_roles km data clusters (i + 1)
                    (st\<lparr>centroidsOther := new, counts := cnt, policy := s\<rparr>))
            else empty_clusters_roles km data clusters (i + 1) st)
         else Inl (OutOfBounds, st))
      else Inr st)"
  by pat_completeness auto
termination
  by (relation "measure (\<lambda>(km, data, clusters, i, st). clusters - i)") auto

declare empty_clusters_roles.simps [simp del]

definition swap_roles :: "('a, 's) kstate \<Rightarrow> ('a, 's) kstate" where
  "swap_roles st = st\<lparr>centroids := centroidsOther st, centroidsOther := centroids st\<rparr>"

definition body_roles ::
  "('a, 's) KMeans \<Rightarrow> 'a mat \<Rightarrow> nat \<Rightarrow> ('a, 's) kstate \<Rightarrow> (error \<times> ('a, 's) kstate) + (double \<times> ('a, 's) kstate)" where
  "body_roles km data clusters st =
     (let (cNorm, new, cnt, s) =
            lloydStep km (policy st) data (metric km) (centroids st) (centroidsOther st) (counts st)
      in case empty_clusters_roles km data clusters 0
                (st\<lparr>centroidsOther := new, counts := cnt, policy := s\<rparr>) of
           Inl e \<Rightarrow> Inl e
         | Inr st2 \<Rightarrow>
             Inr (clamp_residual cNorm, swap_roles (st2\<lparr>iteration := iteration st2 + 1\<rparr>)))"

text \<open>The view of a state of the source's loop in terms of roles, by the parity of the counter.\<close>

definition roles :: "('a, 's) kstate \<Rightarrow> ('a, 's) kstate" where
  "roles st = (if iteration st mod 2 = 0 then st else swap_roles st)"

text \<open>The loop with roles ends for the reason the loop of the source ends.\<close>

lemma empty_clusters_roles_iteration:
  "empty_clusters_roles km data clusters i st = Inr st' \<Longrightarrow> iteration st' = iteration st"
proof (induction km data clusters i st rule: empty_clusters_roles.induct)
  case (1 km data clusters i st)
  show ?case
    using "1.prems" "1.IH"
    by (subst (asm) empty_clusters_roles.simps)
       (auto split: if_splits prod.splits)
qed

lemma body_roles_iteration:
  "body_roles km data clusters st = Inr (r, st') \<Longrightarrow> iteration st' = iteration st + 1"
  by (auto simp: body_roles_def swap_roles_def split: prod.splits sum.splits
           dest!: empty_clusters_roles_iteration)

function loop_roles ::
  "('a, 's) KMeans \<Rightarrow> 'a mat \<Rightarrow> nat \<Rightarrow> ('a, 's) kstate \<Rightarrow> (error \<times> ('a, 's) kstate) + ('a, 's) kstate" where
  "loop_roles km data clusters st =
     (case body_roles km data clusters st of
        Inl e \<Rightarrow> Inl e
      | Inr (cNorm, st') \<Rightarrow>
          if loop_test km cNorm (iteration st') then loop_roles km data clusters st'
          else Inr st')"
  by pat_completeness auto
termination
proof (relation "measure (\<lambda>(km, data, clusters, st). unat (maxIterations km - iteration st - 1))")
  show "wf (measure (\<lambda>(km, data, clusters, st). unat (maxIterations km - iteration st - 1)))"
    by simp
next
  fix km :: "('a, 's) KMeans" and data clusters and st :: "('a, 's) kstate" and x cNorm st'
  assume b: "body_roles km data clusters st = Inr x" and x: "(cNorm, st') = x"
    and t: "loop_test km cNorm (iteration st')"
  from b x have it: "iteration st' = iteration st + 1"
    by (auto dest: body_roles_iteration)
  have "maxIterations km - iteration st - 1 \<noteq> 0"
  proof
    assume "maxIterations km - iteration st - 1 = 0"
    then have "maxIterations km = iteration st + 1"
      by (simp add: algebra_simps)
    with t it show False
      by (simp add: loop_test_def)
  qed
  from unat_pred_less [OF this] it
  show "((km, data, clusters, st'), (km, data, clusters, st))
          \<in> measure (\<lambda>(km, data, clusters, st). unat (maxIterations km - iteration st - 1))"
    by (simp add: diff_diff_eq add.commute)
qed

declare loop_roles.simps [simp del]

subsection \<open>The points of a cluster\<close>

text \<open>The points that an assignment row gives to a cluster, in the order of the dataset.\<close>

definition cluster_points :: "'a mat \<Rightarrow> nat list \<Rightarrow> nat \<Rightarrow> 'a list list" where
  "cluster_points data assignments c =
     map (\<lambda>j. cols data ! j) (filter (\<lambda>j. assignments ! j = c) [0..<n_cols data])"

subsection \<open>Policies of the specification\<close>

text \<open>
  The policies of the specification work on real entries with exact arithmetic.
\<close>

definition exact :: "real arith" where
  "exact = \<lparr>ar_zero = 0, ar_add = (+), ar_div = (\<lambda>x c. x / real c)\<rparr>"

text \<open>
  Modelled from the spec: the Lloyd step \<^verbatim>\<open>Iterate\<close> (section 4.2), whose class
  (\<^verbatim>\<open>NaiveKMeans\<close>) is not among the sources. Every point goes to its nearest centroid
  in the current buffer (ties to the lowest index), is added to that column of the next
  buffer and counted; every column is divided by its count, columns with count zero stay
  zero; the residual is the Frobenius distance between the two buffers.
\<close>

definition lloyd_sums :: "real metric_fn \<Rightarrow> real mat \<Rightarrow> real mat \<Rightarrow> real mat \<times> nat list" where
  "lloyd_sums m data cur =
     fold (\<lambda>p (new, cnt).
             let k = closest m p cur
             in if k < n_cols cur then (col_add exact new k p, cnt[k := cnt ! k + 1]) else (new, cnt))
       (cols data) (zeros exact (n_rows cur) (n_cols cur), replicate (n_cols cur) 0)"

definition frobenius :: "real mat \<Rightarrow> real mat \<Rightarrow> real" where
  "frobenius a b =
     sqrt (sum_list (map2 (\<lambda>u v. sum_list (map2 (\<lambda>x y. (x - y)\<^sup>2) u v)) (cols a) (cols b)))"

definition lloyd_update :: "real metric_fn \<Rightarrow> real mat \<Rightarrow> real mat \<Rightarrow> real mat" where
  "lloyd_update m data cur =
     (let (acc, cnt) = lloyd_sums m data cur in divide_by_counts exact (n_cols cur) 0 cnt acc)"

definition Iterate ::
  "'s \<Rightarrow> real mat \<Rightarrow> real metric_fn \<Rightarrow> real mat \<Rightarrow> real mat \<Rightarrow> nat list \<Rightarrow> double \<times> real mat \<times> nat list \<times> 's" where
  "Iterate s data m cur nxt cnt =
     (let new = lloyd_update m data cur
      in (Finite (frobenius cur new), new, snd (lloyd_sums m data cur), s))"

text \<open>
  Modelled from the spec: the metric the engine expects by default (section 4.5), the
  Euclidean distance, whose class (\<^verbatim>\<open>LMetric\<close>) is not among the sources.
\<close>

definition EuclideanDistance :: "real metric_fn" where
  "EuclideanDistance a b = Finite (sqrt (sum_list (map2 (\<lambda>x y. (x - y)\<^sup>2) a b)))"

text \<open>
  Modelled from the spec: an empty-cluster policy that leaves the cluster empty
  (section 4.4: the count may stay zero by the policy's choice); the policy classes are
  not among the sources.
\<close>

definition AllowEmptyClusters ::
  "'s \<Rightarrow> 'a mat \<Rightarrow> nat \<Rightarrow> 'a mat \<Rightarrow> 'a mat \<Rightarrow> nat list \<Rightarrow> 'a metric_fn \<Rightarrow> 64 word
     \<Rightarrow> 'a mat \<times> nat list \<times> 's" where
  "AllowEmptyClusters s data i old new cnt m it = (new, cnt, s)"

subsection \<open>A concrete configuration\<close>

text \<open>
  Six points on a line, two clusters, and the policies above. The partitioner deals the
  points to the clusters in turn.
\<close>

definition round_robin :: "'s \<Rightarrow> 'a mat \<Rightarrow> nat \<Rightarrow> nat list \<times> 's" where
  "round_robin s data clusters = (map (\<lambda>i. i mod clusters) [0..<n_cols data], s)"

definition example_km :: "64 word \<Rightarrow> (real, unit) KMeans" where
  "example_km M =
     \<lparr>maxIterations = M, metric = EuclideanDistance, partitioner = GivesAssignments round_robin,
      emptyClusterAction = AllowEmptyClusters, lloydStep = Iterate\<rparr>"

definition example_data :: "real mat" where
  "example_data = \<lparr>n_rows = 1, cols = [[0], [1], [2], [3], [4], [5]]\<rparr>"

definition example_guess :: "real mat" where
  "example_guess = \<lparr>n_rows = 1, cols = [[0], [1]]\<rparr>"

text \<open>Three points in the plane and a partitioner that leaves the middle cluster empty.\<close>

definition gap_data :: "real mat" where
  "gap_data = \<lparr>n_rows = 2, cols = [[0, 0], [2, 4], [10, 10]]\<rparr>"

definition one_sided :: "'s \<Rightarrow> 'a mat \<Rightarrow> nat \<Rightarrow> nat list \<times> 's" where
  "one_sided s data clusters = ([0, 0, 2], s)"

text \<open>A centroid matrix with one column too many for two clusters.\<close>

definition wide_guess :: "real mat" where
  "wide_guess = \<lparr>n_rows = 1, cols = [[0], [1], [2]]\<rparr>"

text \<open>The state in which the run from the round-robin partition ends.\<close>

definition example_final :: "(real, unit) kstate" where
  "example_final =
     \<lparr>centroids = \<lparr>n_rows = 1, cols = [[1], [4]]\<rparr>,
      centroidsOther = \<lparr>n_rows = 1, cols = [[1], [4]]\<rparr>,
      counts = [3, 3], iteration = 2, policy = ()\<rparr>"

text \<open>The state in which the loop of the run from \<open>example_guess\<close> ends, unbounded.\<close>

definition example_converged :: "(real, unit) kstate" where
  "example_converged =
     \<lparr>centroids = \<lparr>n_rows = 1, cols = [[1], [4]]\<rparr>,
      centroidsOther = \<lparr>n_rows = 1, cols = [[1], [4]]\<rparr>,
      counts = [3, 3], iteration = 4, policy = ()\<rparr>"

text \<open>
  Three points on a line, the second as far from 0 as from 2, and a guess whose first
  centroid is a millionth to the left of 0.
\<close>

definition tie_data :: "real mat" where
  "tie_data = \<lparr>n_rows = 1, cols = [[0], [1], [3]]\<rparr>"

definition near_guess :: "real mat" where
  "near_guess = \<lparr>n_rows = 1, cols = [[- 1 / 1000000], [2]]\<rparr>"

text \<open>A Lloyd step whose residual is NaN, to exercise the clamp.\<close>

definition nan_km :: "64 word \<Rightarrow> (real, unit) KMeans" where
  "nan_km M = (example_km M)\<lparr>lloydStep := (\<lambda>s data m cur nxt cnt. (NaN, cur, [1, 1], s))\<rparr>"

definition nan_state :: "(real, unit) kstate" where
  "nan_state =
     \<lparr>centroids = example_guess, centroidsOther = empty_mat, counts = [1, 1], iteration = 0,
      policy = ()\<rparr>"

subsection \<open>The mean in an arithmetic\<close>

text \<open>
  The arithmetic mean as an arithmetic computes it: the sum of the values in their order,
  from zero, divided by their number.
\<close>

definition mean :: "'a arith \<Rightarrow> 'a list \<Rightarrow> 'a" where
  "mean ar xs = ar_div ar (foldl (ar_add ar) (ar_zero ar) xs) (length xs)"

text \<open>
  An arithmetic that rounds, to exercise the statements where sums and quotients are not
  exact: integer entries, the quotient rounded down.
\<close>

definition truncating :: "int arith" where
  "truncating = \<lparr>ar_zero = 0, ar_add = (+), ar_div = (\<lambda>x c. x div int c)\<rparr>"

definition thirds_data :: "int mat" where
  "thirds_data = \<lparr>n_rows = 1, cols = [[1], [0], [0]]\<rparr>"

definition int_km :: "(int, unit) KMeans" where
  "int_km =
     \<lparr>maxIterations = 1, metric = (\<lambda>a b. Finite 0), partitioner = GivesAssignments round_robin,
      emptyClusterAction = AllowEmptyClusters,
      lloydStep = (\<lambda>s data m cur nxt cnt. (Finite 0, cur, cnt, s))\<rparr>"

subsection \<open>The scan for empty clusters, cluster by cluster\<close>

text \<open>
  What the scan does with one cluster, in terms of roles (\<open>centroids\<close> is the buffer the
  Lloyd step read, \<open>centroidsOther\<close> the one it wrote): a cluster whose count is zero
  is handed to the empty-cluster policy, which may change the buffer written, the counts
  and its own state. An abort stays.
\<close>

definition scan_step ::
  "('a, 's) KMeans \<Rightarrow> 'a mat \<Rightarrow> nat \<Rightarrow> (error \<times> ('a, 's) kstate) + ('a, 's) kstate
     \<Rightarrow> (error \<times> ('a, 's) kstate) + ('a, 's) kstate" where
  "scan_step km data i r =
     (case r of
        Inl e \<Rightarrow> Inl e
      | Inr st \<Rightarrow>
          if i < length (counts st) then
            (if counts st ! i = 0 then
               (case emptyClusterAction km (policy st) data i (centroids st) (centroidsOther st)
                       (counts st) (metric km) (iteration st) of
                  (new, cnt, s) \<Rightarrow> Inr (st\<lparr>centroidsOther := new, counts := cnt, policy := s\<rparr>))
             else Inr st)
          else Inl (OutOfBounds, st))"

subsection \<open>Policies that record their calls\<close>






subsection \<open>A metric without distances and a partitioner with a column too many\<close>

text \<open>
  A metric whose value is always NaN, and a partitioner that returns three centroids
  however many clusters are asked for.
\<close>

definition nan_metric :: "'a metric_fn" where
  "nan_metric a b = NaN"


subsection \<open>Policies that keep the shapes\<close>

text \<open>
  What the engine relies on and does not check: the Lloyd step returns a matrix with as
  many columns as the one it reads and as many counts, and the empty-cluster policy keeps
  the number of columns and of counts.
\<close>

definition keeps_shape :: "('a, 's) KMeans \<Rightarrow> 'a mat \<Rightarrow> nat \<Rightarrow> bool" where
  "keeps_shape km data clusters \<longleftrightarrow>
     (\<forall>s cur nxt cnt. n_cols cur = clusters \<longrightarrow>
        (case lloydStep km s data (metric km) cur nxt cnt of
           (cNorm, new, cnt', s') \<Rightarrow> n_cols new = clusters \<and> length cnt' = clusters)) \<and>
     (\<forall>s i old new cnt it. n_cols new = clusters \<and> length cnt = clusters \<longrightarrow>
        (case emptyClusterAction km s data i old new cnt (metric km) it of
           (new', cnt', s') \<Rightarrow> n_cols new' = clusters \<and> length cnt' = clusters))"

text \<open>
  The initial partition is in range: an assignment guess, or the assignments of the
  partitioner, name clusters below the number of clusters for every point; a partitioner
  that returns centroids returns that many.
\<close>

definition partition_in_range ::
  "('a, 's) KMeans \<Rightarrow> 's \<Rightarrow> 'a mat \<Rightarrow> nat \<Rightarrow> nat list \<Rightarrow> 'a mat \<Rightarrow> bool \<Rightarrow> bool \<Rightarrow> bool" where
  "partition_in_range km s data clusters assignments guess iag icg \<longleftrightarrow>
     (if iag then (\<forall>i<n_cols data. assignments ! i < clusters)
      else if icg then True
      else (case partitioner km of
              GivesAssignments f \<Rightarrow>
                (case f s data clusters of
                   (a, s') \<Rightarrow> n_cols data \<le> length a \<and> (\<forall>i<n_cols data. a ! i < clusters))
            | GivesCentroids g \<Rightarrow> n_cols (fst (g s data clusters guess)) = clusters))"

text \<open>The conditions under which the call aborts with a fatal configuration error.\<close>

definition fatal_configuration ::
  "'a mat \<Rightarrow> nat \<Rightarrow> nat list \<Rightarrow> 'a mat \<Rightarrow> bool \<Rightarrow> bool \<Rightarrow> bool" where
  "fatal_configuration data clusters assignments guess iag icg \<longleftrightarrow>
     (iag \<and> length assignments \<noteq> n_cols data) \<or>
     (\<not> iag \<and> icg \<and> (n_cols guess \<noteq> clusters \<or> n_rows guess \<noteq> n_rows data))"

text \<open>A dataset of one point, for more clusters than points.\<close>

definition one_point :: "real mat" where
  "one_point = \<lparr>n_rows = 1, cols = [[3]]\<rparr>"

section \<open>Properties\<close>

subsection \<open>Evaluation on concrete input\<close>

text \<open>Comparing the threshold \<^verbatim>\<open>1e-5\<close> with a square root, in the form \<open>simp\<close> leaves it.\<close>

lemma less_sqrt_iff: "0 \<le> c \<Longrightarrow> (c < sqrt x) = (c\<^sup>2 < x)"
  by (metis abs_of_nonneg real_sqrt_abs real_sqrt_less_iff)

lemma sqrt_less_iff: "0 \<le> c \<Longrightarrow> (sqrt x < c) = (x < c\<^sup>2)"
  by (metis abs_of_nonneg real_sqrt_abs real_sqrt_less_iff)

lemma threshold_sqrt:
  "(5902958103587057 < sqrt x * 590295810358705651712) =
     ((5902958103587057 / 590295810358705651712)\<^sup>2 < x)"
proof -
  have "(5902958103587057 < sqrt x * 590295810358705651712) =
      (5902958103587057 / 590295810358705651712 < sqrt x)"
    by simp
  also have "\<dots> = ((5902958103587057 / 590295810358705651712)\<^sup>2 < x)"
    by (rule less_sqrt_iff) simp
  finally show ?thesis .
qed

lemma replicate_numeral: "replicate (numeral k) x = x # replicate (pred_numeral k) x"
  by (simp add: numeral_eq_Suc)

text \<open>The equations that evaluate a run on concrete input.\<close>

lemmas run_simps =
  exact_def round_robin_def example_km_def example_data_def example_guess_def
  Cluster_def config_warnings_def initial_centroids_def check_guess_def n_cols_def
  Cluster_finish_def steal_def loop_entry_def Cluster_loop.simps Cluster_body_def
  lloyd_iterate_def empty_clusters.simps clamp_residual_def loop_test_def
  Iterate_def lloyd_update_def lloyd_sums_def closest_def closest_scan.simps EuclideanDistance_def
  col_add_def col_div_def zeros_def divide_by_counts.simps frobenius_def AllowEmptyClusters_def
  empty_mat_def GetInitialAssignmentsOrCentroids_def centroids_from_assignments_def
  accumulate.simps Cluster_assignments_def Cluster_and_assign_def final_assignments.simps
  set_size_def threshold_def sentinel_def threshold_sqrt less_sqrt_iff sqrt_less_iff
  power2_eq_square replicate_numeral


subsection \<open>The convergence loop\<close>

lemma Cluster_step_Inl [simp]: "Cluster_step km data clusters (Inl e) = Inl e"
  by (simp add: Cluster_step_def)

lemma Cluster_step_Inr:
  "Cluster_step km data clusters (Inr st) =
     (case Cluster_body km data clusters st of Inl e \<Rightarrow> Inl e | Inr (cNorm, st') \<Rightarrow> Inr st')"
  by (simp add: Cluster_step_def)

lemma Cluster_step_pow_Inl [simp]: "(Cluster_step km data clusters ^^ n) (Inl e) = Inl e"
  by (induction n) simp_all

lemma Cluster_step_iteration:
  "(Cluster_step km data clusters ^^ k) (Inr st) = Inr st' \<Longrightarrow>
     iteration st' = iteration st + of_nat k"
proof (induction k arbitrary: st')
  case 0
  then show ?case by simp
next
  case (Suc k)
  show ?case
  proof (cases "(Cluster_step km data clusters ^^ k) (Inr st)")
    case (Inl e)
    with Suc.prems show ?thesis by simp
  next
    case (Inr st'')
    from Suc.IH [OF Inr] have "iteration st'' = iteration st + of_nat k" .
    moreover from Suc.prems Inr have "Cluster_step km data clusters (Inr st'') = Inr st'"
      by simp
    then have "iteration st' = iteration st'' + 1"
      by (auto simp: Cluster_step_Inr split: sum.splits dest: Cluster_body_iteration)
    ultimately show ?thesis by simp
  qed
qed


lemma unat_Suc_less:
  "unat x < unat m \<Longrightarrow> unat (x + 1) = Suc (unat x)" for x m :: "64 word"
proof -
  assume a: "unat x < unat m"
  have "unat m < 2 ^ 64" using unsigned_less [of m] by simp
  with a have "unat x + 1 < 2 ^ 64" by simp
  then show ?thesis by (simp add: unat_word_ariths)
qed

lemma Cluster_loop_bounded:
  "unat (iteration st) < unat (maxIterations km) \<Longrightarrow>
     \<exists>n. 1 \<le> n \<and> n \<le> unat (maxIterations km) - unat (iteration st) \<and>
       Cluster_loop km data clusters st = (Cluster_step km data clusters ^^ n) (Inr st)"
proof (induction km data clusters st rule: Cluster_loop.induct)
  case (1 km data clusters st)
  let ?M = "unat (maxIterations km)"
  show ?case
  proof (cases "Cluster_body km data clusters st")
    case (Inl e)
    then have "Cluster_loop km data clusters st = (Cluster_step km data clusters ^^ 1) (Inr st)"
      by (simp add: Cluster_loop.simps Cluster_step_Inr)
    with "1.prems" show ?thesis by (intro exI [of _ 1]) simp
  next
    case (Inr p)
    obtain c st' where p: "(c, st') = p" by (cases p) auto
    from Inr p have it: "iteration st' = iteration st + 1"
      by (auto dest: Cluster_body_iteration)
    with "1.prems" have u: "unat (iteration st') = Suc (unat (iteration st))"
      by (simp add: unat_Suc_less)
    show ?thesis
    proof (cases "loop_test km c (iteration st')")
      case True
      then have "iteration st' \<noteq> maxIterations km"
        by (simp add: loop_test_def)
      then have "unat (iteration st') \<noteq> ?M"
        by (simp add: word_unat_eq_iff)
      with u "1.prems" have lt: "unat (iteration st') < ?M" by simp
      from "1.IH" [OF Inr p True lt] obtain n where n: "1 \<le> n"
        "n \<le> ?M - unat (iteration st')"
        "Cluster_loop km data clusters st' = (Cluster_step km data clusters ^^ n) (Inr st')"
        by blast
      have "Cluster_loop km data clusters st = Cluster_loop km data clusters st'"
        using Inr p True by (subst Cluster_loop.simps) auto
      also have "\<dots> = (Cluster_step km data clusters ^^ n) (Cluster_step km data clusters (Inr st))"
        using n Inr p by (auto simp: Cluster_step_Inr)
      also have "\<dots> = (Cluster_step km data clusters ^^ Suc n) (Inr st)"
        by (simp add: funpow_swap1)
      finally show ?thesis
        using n(2) u lt by (intro exI [of _ "Suc n"]) simp
    next
      case False
      then have "Cluster_loop km data clusters st = (Cluster_step km data clusters ^^ 1) (Inr st)"
        using Inr p by (subst Cluster_loop.simps) (auto simp: Cluster_step_Inr)
      with "1.prems" show ?thesis by (intro exI [of _ 1]) simp
    qed
  qed
qed

text \<open>
  The bound on the passes whatever the counter and the bound are: the distance from the
  counter to the bound, around the 64-bit circle.
\<close>

lemma Cluster_loop_wraps:
  "\<exists>n. 1 \<le> n \<and> n \<le> unat (maxIterations km - iteration st - 1) + 1 \<and>
     Cluster_loop km data clusters st = (Cluster_step km data clusters ^^ n) (Inr st)"
proof (induction km data clusters st rule: Cluster_loop.induct)
  case (1 km data clusters st)
  show ?case
  proof (cases "Cluster_body km data clusters st")
    case (Inl e)
    then have "Cluster_loop km data clusters st = (Cluster_step km data clusters ^^ 1) (Inr st)"
      by (simp add: Cluster_loop.simps Cluster_step_Inr)
    then show ?thesis by (intro exI [of _ 1]) simp
  next
    case (Inr p)
    obtain c st' where p: "(c, st') = p" by (cases p) auto
    from Inr p have it: "iteration st' = iteration st + 1"
      by (auto dest: Cluster_body_iteration)
    show ?thesis
    proof (cases "loop_test km c (iteration st')")
      case True
      have "maxIterations km - iteration st - 1 \<noteq> 0"
      proof
        assume "maxIterations km - iteration st - 1 = 0"
        then have "maxIterations km = iteration st + 1"
          by (simp add: algebra_simps)
        with True it show False
          by (simp add: loop_test_def)
      qed
      from unat_pred_less [OF this] it
      have lt: "unat (maxIterations km - iteration st' - 1) < unat (maxIterations km - iteration st - 1)"
        by (simp add: diff_diff_eq add.commute)
      from "1.IH" [OF Inr p True] obtain n where n: "1 \<le> n"
        "n \<le> unat (maxIterations km - iteration st' - 1) + 1"
        "Cluster_loop km data clusters st' = (Cluster_step km data clusters ^^ n) (Inr st')"
        by blast
      have "Cluster_loop km data clusters st = Cluster_loop km data clusters st'"
        using Inr p True by (subst Cluster_loop.simps) auto
      also have "\<dots> = (Cluster_step km data clusters ^^ n) (Cluster_step km data clusters (Inr st))"
        using n Inr p by (auto simp: Cluster_step_Inr)
      also have "\<dots> = (Cluster_step km data clusters ^^ Suc n) (Inr st)"
        by (simp add: funpow_swap1)
      finally show ?thesis
        using n(2) lt by (intro exI [of _ "Suc n"]) simp
    next
      case False
      then have "Cluster_loop km data clusters st = (Cluster_step km data clusters ^^ 1) (Inr st)"
        using Inr p by (subst Cluster_loop.simps) (auto simp: Cluster_step_Inr)
      then show ?thesis by (intro exI [of _ 1]) simp
    qed
  qed
qed

lemma Cluster_loop_unbounded:
  "maxIterations km = 0 \<Longrightarrow> iteration st = 0 \<Longrightarrow>
     \<exists>n. 1 \<le> n \<and> n \<le> 2 ^ 64 \<and>
       Cluster_loop km data clusters st = (Cluster_step km data clusters ^^ n) (Inr st)"
proof -
  assume a: "maxIterations km = 0" "iteration st = 0"
  have "unat (- 1 :: 64 word) + 1 = 2 ^ 64"
    by (simp add: unsigned_minus_1_eq_mask mask_eq_exp_minus_1)
  with Cluster_loop_wraps [of km st data clusters] a show ?thesis
    by simp
qed

subsection \<open>The loop of the source and the loop with named roles\<close>

lemma iteration_roles [simp]: "iteration (roles st) = iteration st"
  by (simp add: roles_def swap_roles_def)

lemma counts_roles [simp]: "counts (roles st) = counts st"
  by (simp add: roles_def swap_roles_def)

lemma policy_roles [simp]: "policy (roles st) = policy st"
  by (simp add: roles_def swap_roles_def)

lemma roles_even:
  "iteration st mod 2 = 0 \<Longrightarrow> roles st = st"
  by (simp add: roles_def)

lemma roles_odd:
  "iteration st mod 2 \<noteq> 0 \<Longrightarrow> roles st = swap_roles st"
  by (simp add: roles_def)

lemma empty_clusters_roles:
  "empty_clusters_roles km data clusters i (roles st) =
     map_sum (map_prod (\<lambda>e. e) roles) roles (empty_clusters km data clusters i st)"
proof (induction km data clusters i st rule: empty_clusters.induct)
  case (1 km data clusters i st)
  consider (finished) "\<not> i < clusters"
    | (out) "i < clusters" "\<not> i < length (counts st)"
    | (skip) "i < clusters" "i < length (counts st)" "counts st ! i \<noteq> 0"
    | (even) "i < clusters" "i < length (counts st)" "counts st ! i = 0" "iteration st mod 2 = 0"
    | (odd) "i < clusters" "i < length (counts st)" "counts st ! i = 0" "iteration st mod 2 \<noteq> 0"
    by blast
  then show ?case
  proof cases
    case finished
    then show ?thesis
      by (subst empty_clusters_roles.simps, subst empty_clusters.simps) simp
  next
    case out
    then show ?thesis
      by (subst empty_clusters_roles.simps, subst empty_clusters.simps) simp
  next
    case skip
    with "1.IH"(3) show ?thesis
      by (subst empty_clusters_roles.simps, subst empty_clusters.simps) simp
  next
    case even
    obtain new cnt s where e: "emptyClusterAction km (policy st) data i
        (centroids st) (centroidsOther st) (counts st) (metric km) (iteration st) = (new, cnt, s)"
      by (metis prod_cases3)
    have r: "roles (st\<lparr>centroidsOther := new, counts := cnt, policy := s\<rparr>) =
        (roles st)\<lparr>centroidsOther := new, counts := cnt, policy := s\<rparr>"
      using even(4) by (simp add: roles_def)
    from "1.IH"(1) [OF even e [symmetric] refl] r e even show ?thesis
      by (subst empty_clusters_roles.simps, subst empty_clusters.simps)
         (simp add: roles_even)
  next
    case odd
    obtain new cnt s where e: "emptyClusterAction km (policy st) data i
        (centroidsOther st) (centroids st) (counts st) (metric km) (iteration st) = (new, cnt, s)"
      by (metis prod_cases3)
    have r: "roles (st\<lparr>centroids := new, counts := cnt, policy := s\<rparr>) =
        (roles st)\<lparr>centroidsOther := new, counts := cnt, policy := s\<rparr>"
      using odd(4) by (simp add: roles_def swap_roles_def)
    have c: "centroids (roles st) = centroidsOther st" "centroidsOther (roles st) = centroids st"
      using odd(4) by (simp_all add: roles_def swap_roles_def)
    from "1.IH"(2) [OF odd e [symmetric] refl] r e odd c show ?thesis
      by (subst empty_clusters_roles.simps, subst empty_clusters.simps) simp
  qed
qed

lemma body_roles:
  "body_roles km data clusters (roles st) =
     map_sum (map_prod (\<lambda>e. e) roles) (map_prod (\<lambda>e. e) roles) (Cluster_body km data clusters st)"
proof (cases "iteration st mod 2 = 0")
  case True
  obtain cNorm new cnt s where l: "lloydStep km (policy st) data (metric km)
      (centroids st) (centroidsOther st) (counts st) = (cNorm, new, cnt, s)"
    by (metis prod_cases4)
  let ?st1 = "st\<lparr>centroidsOther := new, counts := cnt, policy := s\<rparr>"
  have r: "roles ?st1 = ?st1" "roles st = st"
    using True by (simp_all add: roles_def)
  have f: "swap_roles ((roles st2)\<lparr>iteration := iteration st2 + 1\<rparr>) =
      roles (st2\<lparr>iteration := iteration st2 + 1\<rparr>)"
    if "iteration st2 = iteration st" for st2 :: "('a, 'b) kstate"
    using that True by (simp add: roles_def swap_roles_def even_iff_mod_2_eq_zero [symmetric])
  show ?thesis
  proof (cases "empty_clusters km data clusters 0 ?st1")
    case (Inl e)
    with l r empty_clusters_roles [of km data clusters 0 ?st1] show ?thesis
      by (simp add: body_roles_def Cluster_body_def lloyd_iterate_def True)
  next
    case (Inr st2)
    from empty_clusters_iteration [OF Inr] have "iteration st2 = iteration st"
      by simp
    from f [OF this] Inr l r empty_clusters_roles [of km data clusters 0 ?st1] show ?thesis
      by (simp add: body_roles_def Cluster_body_def lloyd_iterate_def True)
  qed
next
  case False
  obtain cNorm new cnt s where l: "lloydStep km (policy st) data (metric km)
      (centroidsOther st) (centroids st) (counts st) = (cNorm, new, cnt, s)"
    by (metis prod_cases4)
  let ?st1 = "st\<lparr>centroids := new, counts := cnt, policy := s\<rparr>"
  have r: "roles ?st1 = (roles st)\<lparr>centroidsOther := new, counts := cnt, policy := s\<rparr>"
    "centroids (roles st) = centroidsOther st" "centroidsOther (roles st) = centroids st"
    using False by (simp_all add: roles_def swap_roles_def)
  have f: "swap_roles ((roles st2)\<lparr>iteration := iteration st2 + 1\<rparr>) =
      roles (st2\<lparr>iteration := iteration st2 + 1\<rparr>)"
    if "iteration st2 = iteration st" for st2 :: "('a, 'b) kstate"
    using that False by (simp add: roles_def swap_roles_def even_iff_mod_2_eq_zero [symmetric])
  show ?thesis
  proof (cases "empty_clusters km data clusters 0 ?st1")
    case (Inl e)
    with l r empty_clusters_roles [of km data clusters 0 ?st1] show ?thesis
      by (simp add: body_roles_def Cluster_body_def lloyd_iterate_def False)
  next
    case (Inr st2)
    from empty_clusters_iteration [OF Inr] have "iteration st2 = iteration st"
      by simp
    from f [OF this] Inr l r empty_clusters_roles [of km data clusters 0 ?st1] show ?thesis
      by (simp add: body_roles_def Cluster_body_def lloyd_iterate_def False)
  qed
qed

lemma loop_roles:
  "loop_roles km data clusters (roles st) =
     map_sum (map_prod (\<lambda>e. e) roles) roles (Cluster_loop km data clusters st)"
proof (induction km data clusters st rule: Cluster_loop.induct)
  case (1 km data clusters st)
  show ?case
  proof (cases "Cluster_body km data clusters st")
    case (Inl e)
    with body_roles [of km data clusters st] show ?thesis
      by (subst loop_roles.simps, subst Cluster_loop.simps) simp
  next
    case (Inr p)
    obtain c st' where p: "(c, st') = p" by (cases p) auto
    with Inr body_roles [of km data clusters st]
    have b: "body_roles km data clusters (roles st) = Inr (c, roles st')"
      by auto
    show ?thesis
    proof (cases "loop_test km c (iteration st')")
      case True
      with "1.IH" [OF Inr p True] Inr p b show ?thesis
        by (subst loop_roles.simps, subst Cluster_loop.simps) auto
    next
      case False
      with Inr p b show ?thesis
        by (subst loop_roles.simps, subst Cluster_loop.simps) auto
    qed
  qed
qed

lemma centroids_steal: "centroids (steal st) = centroids (roles st)"
proof -
  have "((iteration st - 1) mod 2 = 0) = (iteration st mod 2 \<noteq> 0)"
    by (simp add: even_iff_mod_2_eq_zero [symmetric])
  then show ?thesis
    by (simp add: steal_def roles_def swap_roles_def)
qed

subsection \<open>Centroids from assignments are means\<close>

lemma n_cols_col_add [simp]: "n_cols (col_add ar m k v) = n_cols m"
  by (simp add: n_cols_def col_add_def)

lemma n_rows_col_add [simp]: "n_rows (col_add ar m k v) = n_rows m"
  by (simp add: col_add_def)

lemma n_cols_col_div [simp]: "n_cols (col_div ar m k c) = n_cols m"
  by (simp add: n_cols_def col_div_def)

lemma n_rows_col_div [simp]: "n_rows (col_div ar m k c) = n_rows m"
  by (simp add: col_div_def)

lemma n_cols_zeros [simp]: "n_cols (zeros ar r c) = c"
  by (simp add: n_cols_def zeros_def)

lemma n_rows_zeros [simp]: "n_rows (zeros ar r c) = r"
  by (simp add: zeros_def)

lemma cols_col_add:
  "c < n_cols m \<Longrightarrow>
     cols (col_add ar m k v) ! c =
       (if c = k then map2 (ar_add ar) (cols m ! k) v else cols m ! c)"
  by (simp add: col_add_def n_cols_def)

lemma cols_col_div:
  "c < n_cols m \<Longrightarrow>
     cols (col_div ar m k d) ! c =
       (if c = k then map (\<lambda>x. ar_div ar x d) (cols m ! k) else cols m ! c)"
  by (simp add: col_div_def n_cols_def)

lemma accumulate_spec:
  assumes "accumulate ar data assignments i cs cnt = Inr (cs', cnt')"
    and "wf_mat data"
    and "\<forall>c<n_cols cs. length (cols cs ! c) = n_rows data"
    and "length cnt = n_cols cs"
  shows "n_cols cs' = n_cols cs \<and> n_rows cs' = n_rows cs \<and> length cnt' = length cnt \<and>
    (\<forall>c<n_cols cs.
       length (cols cs' ! c) = n_rows data \<and>
       cnt' ! c = cnt ! c + length (filter (\<lambda>j. assignments ! j = c) [i..<n_cols data]) \<and>
       (\<forall>r<n_rows data.
          cols cs' ! c ! r =
            foldl (ar_add ar) (cols cs ! c ! r)
              (map (\<lambda>j. cols data ! j ! r)
                 (filter (\<lambda>j. assignments ! j = c) [i..<n_cols data]))))"
  using assms
proof (induction ar data assignments i cs cnt rule: accumulate.induct)
  case (1 ar data assignments i cs cnt)
  show ?case
  proof (cases "i < n_cols data")
    case False
    with "1.prems" show ?thesis
      by (subst (asm) accumulate.simps) simp
  next
    case True
    let ?a = "assignments ! i"
    let ?cs1 = "col_add ar cs ?a (cols data ! i)"
    let ?cnt1 = "cnt[?a := cnt ! ?a + 1]"
    from "1.prems"(1) True have ok: "i < length assignments" "?a < n_cols cs" "?a < length cnt"
      and rec: "accumulate ar data assignments (i + 1) ?cs1 ?cnt1 = Inr (cs', cnt')"
      by (subst (asm) accumulate.simps, simp split: if_splits)+
    from "1.prems"(2) True have len: "length (cols data ! i) = n_rows data"
      by (simp add: wf_mat_def list_all_length n_cols_def)
    have l1: "\<forall>c<n_cols ?cs1. length (cols ?cs1 ! c) = n_rows data"
      using "1.prems"(3) len by (simp add: cols_col_add)
    have l2: "length ?cnt1 = n_cols ?cs1"
      using "1.prems"(4) by simp
    note IH = "1.IH" [OF True _ rec "1.prems"(2) l1 l2]
    have upt: "[i..<n_cols data] = i # [i + 1..<n_cols data]"
      using True by (simp add: upt_conv_Cons)
    have "length (cols cs' ! c) = n_rows data \<and>
       cnt' ! c = cnt ! c + length (filter (\<lambda>j. assignments ! j = c) [i..<n_cols data]) \<and>
       (\<forall>r<n_rows data.
          cols cs' ! c ! r =
            foldl (ar_add ar) (cols cs ! c ! r)
              (map (\<lambda>j. cols data ! j ! r)
                 (filter (\<lambda>j. assignments ! j = c) [i..<n_cols data])))"
      if c: "c < n_cols cs" for c
    proof -
      from IH ok c have a: "length (cols cs' ! c) = n_rows data"
        and b: "cnt' ! c = ?cnt1 ! c + length (filter (\<lambda>j. assignments ! j = c) [i + 1..<n_cols data])"
        and d: "\<And>r. r < n_rows data \<Longrightarrow> cols cs' ! c ! r =
            foldl (ar_add ar) (cols ?cs1 ! c ! r)
              (map (\<lambda>j. cols data ! j ! r)
                 (filter (\<lambda>j. assignments ! j = c) [i + 1..<n_cols data]))"
        by simp_all
      have e: "cols ?cs1 ! c ! r =
          (if c = ?a then ar_add ar (cols cs ! c ! r) (cols data ! i ! r) else cols cs ! c ! r)"
        if "r < n_rows data" for r
        using that c len "1.prems"(3) by (simp add: cols_col_add)
      show ?thesis
        using a b d e c ok "1.prems"(4) by (simp add: upt nth_list_update)
    qed
    with IH ok show ?thesis
      by simp
  qed
qed

lemma divide_by_counts_means:
  "clusters \<le> n_cols cs \<Longrightarrow>
   n_cols (divide_by_counts ar clusters i cnt cs) = n_cols cs \<and>
   n_rows (divide_by_counts ar clusters i cnt cs) = n_rows cs \<and>
   (\<forall>c<n_cols cs.
      cols (divide_by_counts ar clusters i cnt cs) ! c =
        (if i \<le> c \<and> c < clusters \<and> cnt ! c \<noteq> 0
         then map (\<lambda>x. ar_div ar x (cnt ! c)) (cols cs ! c) else cols cs ! c))"
proof (induction ar clusters i cnt cs rule: divide_by_counts.induct)
  case (1 ar clusters i cnt cs)
  show ?case
  proof (cases "i < clusters")
    case False
    then have "divide_by_counts ar clusters i cnt cs = cs"
      by (subst divide_by_counts.simps) simp
    with False show ?thesis
      by auto
  next
    case True
    let ?cs1 = "if cnt ! i \<noteq> 0 then col_div ar cs i (cnt ! i) else cs"
    have n: "clusters \<le> n_cols ?cs1"
      using "1.prems" by simp
    have eq: "divide_by_counts ar clusters i cnt cs = divide_by_counts ar clusters (i + 1) cnt ?cs1"
      using True by (subst divide_by_counts.simps) simp
    note IH = "1.IH" [OF True n]
    have "cols (divide_by_counts ar clusters (i + 1) cnt ?cs1) ! c =
        (if i \<le> c \<and> c < clusters \<and> cnt ! c \<noteq> 0
         then map (\<lambda>x. ar_div ar x (cnt ! c)) (cols cs ! c) else cols cs ! c)"
      if c: "c < n_cols cs" for c
    proof (cases "c = i")
      case c_eq: True
      with IH c True show ?thesis
        by (simp add: cols_col_div)
    next
      case False
      then have "(i \<le> c) = (i + 1 \<le> c)"
        by auto
      with IH c False show ?thesis
        by (simp add: cols_col_div)
    qed
    with IH show ?thesis
      unfolding eq by simp
  qed
qed

lemma centroids_from_assignments_means:
  assumes "centroids_from_assignments ar data clusters assignments = Inr cs"
    and "wf_mat data"
  shows "n_cols cs = clusters \<and> n_rows cs = n_rows data \<and>
    (\<forall>c<clusters. \<forall>r<n_rows data.
       cols cs ! c ! r =
         (let pts = cluster_points data assignments c
          in if pts = [] then ar_zero ar
             else ar_div ar (foldl (ar_add ar) (ar_zero ar) (map (\<lambda>p. p ! r) pts))
                    (length pts)))"
proof -
  let ?z = "zeros ar (n_rows data) clusters"
  from assms(1) obtain acc cnt where
    acc: "accumulate ar data assignments 0 ?z (replicate clusters 0) = Inr (acc, cnt)"
    and cs: "cs = divide_by_counts ar clusters 0 cnt acc"
    by (auto simp: centroids_from_assignments_def split: sum.splits)
  have z: "\<forall>c<n_cols ?z. length (cols ?z ! c) = n_rows data"
    by (simp add: zeros_def n_cols_def)
  have l: "length (replicate clusters (0::nat)) = n_cols ?z"
    by simp
  have zc: "cols ?z ! c ! r = ar_zero ar" if "c < clusters" "r < n_rows data" for c r
    using that by (simp add: zeros_def)
  from accumulate_spec [OF acc assms(2) z l] zc
  have shape: "n_cols acc = clusters" "n_rows acc = n_rows data"
    and col: "\<And>c. c < clusters \<Longrightarrow> length (cols acc ! c) = n_rows data"
    and count: "\<And>c. c < clusters \<Longrightarrow>
      cnt ! c = length (filter (\<lambda>j. assignments ! j = c) [0..<n_cols data])"
    and total: "\<And>c r. c < clusters \<Longrightarrow> r < n_rows data \<Longrightarrow>
      cols acc ! c ! r =
        foldl (ar_add ar) (ar_zero ar)
          (map (\<lambda>j. cols data ! j ! r)
             (filter (\<lambda>j. assignments ! j = c) [0..<n_cols data]))"
    by simp_all
  from divide_by_counts_means [where clusters = clusters and cs = acc and i = 0 and cnt = cnt and ar = ar] shape
  have n: "n_cols cs = clusters" "n_rows cs = n_rows data"
    and d: "\<And>c. c < clusters \<Longrightarrow> cols cs ! c =
      (if cnt ! c \<noteq> 0 then map (\<lambda>x. ar_div ar x (cnt ! c)) (cols acc ! c) else cols acc ! c)"
    by (simp_all add: cs)
  have "cols cs ! c ! r =
      (let pts = cluster_points data assignments c
       in if pts = [] then ar_zero ar
          else ar_div ar (foldl (ar_add ar) (ar_zero ar) (map (\<lambda>p. p ! r) pts))
                 (length pts))"
    if "c < clusters" "r < n_rows data" for c r
    using that d [OF that(1)] col [OF that(1)] count [OF that(1)] total [OF that]
    by (simp add: cluster_points_def Let_def comp_def)
  with n show ?thesis
    by simp
qed

lemma foldl_add_sum_list: "foldl (+) a xs = a + sum_list xs" for a :: real
  by (induction xs arbitrary: a) simp_all

lemma mean_exact: "mean exact xs = sum_list xs / real (length xs)"
  by (simp add: mean_def exact_def foldl_add_sum_list)

subsection \<open>Which aborts can occur where\<close>

lemma accumulate_error:
  "accumulate ar data assignments i cs cnt = Inl (e, c) \<Longrightarrow> e = OutOfBounds"
proof (induction ar data assignments i cs cnt rule: accumulate.induct)
  case (1 ar data assignments i cs cnt)
  from "1.prems" "1.IH" show ?case
    by (subst (asm) accumulate.simps) (auto split: if_splits)
qed

lemma centroids_from_assignments_error:
  "centroids_from_assignments ar data clusters assignments = Inl (e, c) \<Longrightarrow> e = OutOfBounds"
  by (auto simp: centroids_from_assignments_def split: sum.splits dest: accumulate_error)

lemma empty_clusters_error:
  "empty_clusters km data clusters i st = Inl (e, st') \<Longrightarrow> e = OutOfBounds"
proof (induction km data clusters i st rule: empty_clusters.induct)
  case (1 km data clusters i st)
  from "1.prems" "1.IH" show ?case
    by (subst (asm) empty_clusters.simps) (auto split: if_splits prod.splits)
qed

lemma Cluster_body_error:
  "Cluster_body km data clusters st = Inl (e, st') \<Longrightarrow> e = OutOfBounds"
  by (auto simp: Cluster_body_def split: prod.splits sum.splits dest: empty_clusters_error)

lemma Cluster_loop_error:
  "Cluster_loop km data clusters st = Inl (e, st') \<Longrightarrow> e = OutOfBounds"
proof (induction km data clusters st rule: Cluster_loop.induct)
  case (1 km data clusters st)
  from "1.prems" "1.IH" show ?case
    by (subst (asm) Cluster_loop.simps)
       (auto split: sum.splits prod.splits if_splits dest: Cluster_body_error)
qed

lemma final_assignments_error:
  "final_assignments debug m data cs i a = Inl (e, a') \<Longrightarrow> e = AssertFailed"
proof (induction debug m data cs i a rule: final_assignments.induct)
  case (1 debug m data cs i a)
  from "1.prems" "1.IH" show ?case
    by (subst (asm) final_assignments.simps) (auto simp: Let_def split: if_splits)
qed

lemma Cluster_fatal:
  "snd (Cluster ar km s uninit data clusters guess initialGuess) = Inl (Fatal f, c) \<longleftrightarrow>
     initialGuess \<and> check_guess data clusters guess = Some f \<and> c = guess"
  by (auto simp: Cluster_def initial_centroids_def Cluster_finish_def
      split: sum.splits prod.splits option.splits if_splits
      dest: Cluster_loop_error centroids_from_assignments_error)

lemma Cluster_and_assign_fatal:
  "snd (Cluster_and_assign ar km s uninit debug data clusters assignments guess initialGuess)
       = Inl (Fatal f, c, a) \<longleftrightarrow>
     initialGuess \<and> check_guess data clusters guess = Some f \<and> c = guess \<and> a = assignments"
proof -
  obtain ws r where r: "Cluster ar km s uninit data clusters guess initialGuess = (ws, r)"
    by (cases "Cluster ar km s uninit data clusters guess initialGuess")
  with Cluster_fatal [where ar = ar and km = km and s = s and uninit = uninit and data = data
      and clusters = clusters and guess = guess and initialGuess = initialGuess and f = f]
  have *: "r = Inl (Fatal f, c) \<longleftrightarrow>
      initialGuess \<and> check_guess data clusters guess = Some f \<and> c = guess" for c
    by simp
  show ?thesis
    using r * by (auto simp: Cluster_and_assign_def split: sum.splits prod.splits
        dest: final_assignments_error)
qed

lemma check_guess_Some:
  "(\<exists>f. check_guess data clusters guess = Some f) \<longleftrightarrow>
     n_cols guess \<noteq> clusters \<or> n_rows guess \<noteq> n_rows data"
  by (simp add: check_guess_def)

lemma accumulate_shape:
  "accumulate ar data assignments i cs cnt = Inr (cs', cnt') \<Longrightarrow>
     n_cols cs' = n_cols cs \<and> n_rows cs' = n_rows cs"
proof (induction ar data assignments i cs cnt rule: accumulate.induct)
  case (1 ar data assignments i cs cnt)
  from "1.prems" "1.IH" show ?case
    by (subst (asm) accumulate.simps) (auto split: if_splits)
qed

lemma shape_after_assignments:
  assumes "centroids_from_assignments ar data clusters assignments = Inr c"
  shows "check_guess data clusters c = None"
proof -
  from assms obtain acc cnt where
    acc: "accumulate ar data assignments 0 (zeros ar (n_rows data) clusters) (replicate clusters 0)
            = Inr (acc, cnt)"
    and c: "c = divide_by_counts ar clusters 0 cnt acc"
    by (auto simp: centroids_from_assignments_def split: sum.splits)
  from accumulate_shape [OF acc] have "n_cols acc = clusters" "n_rows acc = n_rows data"
    by simp_all
  with divide_by_counts_means [where clusters = clusters and cs = acc and i = 0 and cnt = cnt and ar = ar] c show ?thesis
    by (simp add: check_guess_def)
qed

subsection \<open>The final assignment pass\<close>

lemma dless_irrefl [simp]: "\<not> dless x x"
  by (cases x) simp_all

lemma dless_trans: "dless x y \<Longrightarrow> dless y z \<Longrightarrow> dless x z"
  by (cases x; cases y; cases z) simp_all

lemma dless_PInf: "dless x y \<Longrightarrow> dless x PInf"
  by (cases x; cases y) simp_all

text \<open>
  The invariant of the scan over the centroids: either nothing below infinity has been
  seen and the index is still the invalid one, or the index is the first column at the
  least distance seen. A NaN distance is never taken, since no comparison with it holds.
\<close>

lemma closest_scan_first_min:
  assumes "j \<le> n_cols cs"
    and "(minDistance = PInf \<and> cc = n_cols cs \<and> (\<forall>l<j. \<not> dless (m p (cols cs ! l)) PInf)) \<or>
         (cc < j \<and> minDistance = m p (cols cs ! cc) \<and> dless (m p (cols cs ! cc)) PInf \<and>
          (\<forall>l<j. \<not> dless (m p (cols cs ! l)) (m p (cols cs ! cc))) \<and>
          (\<forall>l<cc. m p (cols cs ! l) \<noteq> m p (cols cs ! cc)))"
  shows "(if \<exists>l<n_cols cs. dless (m p (cols cs ! l)) PInf
          then closest_scan m p cs j minDistance cc < n_cols cs \<and>
               dless (m p (cols cs ! closest_scan m p cs j minDistance cc)) PInf \<and>
               (\<forall>l<n_cols cs. \<not> dless (m p (cols cs ! l))
                                    (m p (cols cs ! closest_scan m p cs j minDistance cc))) \<and>
               (\<forall>l<closest_scan m p cs j minDistance cc.
                  m p (cols cs ! l) \<noteq> m p (cols cs ! closest_scan m p cs j minDistance cc))
          else closest_scan m p cs j minDistance cc = n_cols cs)"
  using assms
proof (induction m p cs j minDistance cc rule: closest_scan.induct)
  case (1 m p cs j minDistance cc)
  let ?d = "\<lambda>l. m p (cols cs ! l)"
  show ?case
  proof (cases "j < n_cols cs")
    case False
    with "1.prems"(1) have j: "j = n_cols cs" by simp
    then have r: "closest_scan m p cs j minDistance cc = cc"
      by (subst closest_scan.simps) simp
    from "1.prems"(2) j show ?thesis
      unfolding r by auto
  next
    case True
    show ?thesis
    proof (cases "dless (?d j) minDistance")
      case less: True
      then have r: "closest_scan m p cs j minDistance cc =
          closest_scan m p cs (j + 1) (?d j) j"
        using True by (subst closest_scan.simps) simp
      have fin: "dless (?d j) PInf"
        using less by (rule dless_PInf)
      have a: "\<not> dless (?d l) (?d j)" if "l < j + 1" for l
      proof (cases "l = j")
        case True
        then show ?thesis by simp
      next
        case False
        with that have lj: "l < j" by simp
        from "1.prems"(2) show ?thesis
        proof
          assume "minDistance = PInf \<and> cc = n_cols cs \<and> (\<forall>l<j. \<not> dless (?d l) PInf)"
          with lj have "\<not> dless (?d l) PInf" by simp
          then show ?thesis using dless_PInf by blast
        next
          assume c2: "cc < j \<and> minDistance = ?d cc \<and> dless (?d cc) PInf \<and>
            (\<forall>l<j. \<not> dless (?d l) (?d cc)) \<and> (\<forall>l<cc. ?d l \<noteq> ?d cc)"
          with lj have "\<not> dless (?d l) (?d cc)" by simp
          moreover from c2 less have "dless (?d j) (?d cc)" by simp
          ultimately show ?thesis using dless_trans by blast
        qed
      qed
      have b: "?d l \<noteq> ?d j" if "l < j" for l
      proof
        assume eq: "?d l = ?d j"
        from "1.prems"(2) show False
        proof
          assume "minDistance = PInf \<and> cc = n_cols cs \<and> (\<forall>l<j. \<not> dless (?d l) PInf)"
          with that have "\<not> dless (?d l) PInf" by simp
          with eq fin show False by simp
        next
          assume c2: "cc < j \<and> minDistance = ?d cc \<and> dless (?d cc) PInf \<and>
            (\<forall>l<j. \<not> dless (?d l) (?d cc)) \<and> (\<forall>l<cc. ?d l \<noteq> ?d cc)"
          with that have "\<not> dless (?d l) (?d cc)" by simp
          with eq c2 less show False by simp
        qed
      qed
      have inv: "(?d j = PInf \<and> j = n_cols cs \<and> (\<forall>l<j + 1. \<not> dless (?d l) PInf)) \<or>
         (j < j + 1 \<and> ?d j = ?d j \<and> dless (?d j) PInf \<and>
          (\<forall>l<j + 1. \<not> dless (?d l) (?d j)) \<and> (\<forall>l<j. ?d l \<noteq> ?d j))"
        using fin a b by simp
      from "1.IH"(1) [OF True refl less _ inv] True
      show ?thesis
        unfolding r by simp
    next
      case geq: False
      then have r: "closest_scan m p cs j minDistance cc =
          closest_scan m p cs (j + 1) minDistance cc"
        using True by (subst closest_scan.simps) simp
      have inv: "(minDistance = PInf \<and> cc = n_cols cs \<and> (\<forall>l<j + 1. \<not> dless (?d l) PInf)) \<or>
         (cc < j + 1 \<and> minDistance = ?d cc \<and> dless (?d cc) PInf \<and>
          (\<forall>l<j + 1. \<not> dless (?d l) (?d cc)) \<and> (\<forall>l<cc. ?d l \<noteq> ?d cc))"
        using "1.prems"(2) geq by (auto simp: less_Suc_eq)
      from "1.IH"(2) [OF True refl geq _ inv] True
      show ?thesis
        unfolding r by simp
    qed
  qed
qed

lemma closest_first_min:
  "(if \<exists>l<n_cols cs. dless (m p (cols cs ! l)) PInf
    then closest m p cs < n_cols cs \<and>
         dless (m p (cols cs ! closest m p cs)) PInf \<and>
         (\<forall>l<n_cols cs. \<not> dless (m p (cols cs ! l)) (m p (cols cs ! closest m p cs))) \<and>
         (\<forall>l<closest m p cs. m p (cols cs ! l) \<noteq> m p (cols cs ! closest m p cs))
    else closest m p cs = n_cols cs)"
  unfolding closest_def
  by (rule closest_scan_first_min) simp_all


lemma closest_finite:
  "0 < n_cols cs \<Longrightarrow> \<forall>l<n_cols cs. \<exists>x. m p (cols cs ! l) = Finite x \<Longrightarrow>
     closest m p cs < n_cols cs"
proof -
  assume n: "0 < n_cols cs" and f: "\<forall>l<n_cols cs. \<exists>x. m p (cols cs ! l) = Finite x"
  then obtain x where "m p (cols cs ! 0) = Finite x"
    by blast
  with n have "\<exists>l<n_cols cs. dless (m p (cols cs ! l)) PInf"
    by (intro exI [of _ 0]) simp
  with closest_first_min [of cs m p] show ?thesis
    by simp
qed


text \<open>The final pass returns when no assertion can fail.\<close>

lemma final_assignments_returns:
  "(debug \<longrightarrow> (\<forall>l<n_cols data. closest m (cols data ! l) cs \<noteq> n_cols cs)) \<Longrightarrow>
     \<exists>r. final_assignments debug m data cs i a = Inr r"
proof (induction debug m data cs i a rule: final_assignments.induct)
  case (1 debug m data cs i a)
  show ?case
  proof (cases "i < n_cols data")
    case False
    then show ?thesis
      by (subst final_assignments.simps) simp
  next
    case True
    let ?c = "closest m (cols data ! i) cs"
    from "1.prems" True have na: "\<not> (debug \<and> ?c = n_cols cs)"
      by auto
    from "1.IH" [OF True refl na "1.prems"] na True show ?thesis
      by (subst final_assignments.simps) (simp add: Let_def)
  qed
qed


lemma length_set_size [simp]: "length (set_size fresh n xs) = n"
  by (simp add: set_size_def)



subsection \<open>A second run from a fixed point of the Lloyd update\<close>

lemma sum_list_map2_self:
  "(\<And>x. f x x = (0::real)) \<Longrightarrow> sum_list (map2 f xs xs) = 0"
  by (induction xs) simp_all

lemma frobenius_self: "frobenius a a = 0"
  by (simp add: frobenius_def sum_list_map2_self)

lemma length_lloyd_sums: "length (snd (lloyd_sums m data cur)) = n_cols cur"
proof -
  have "length (snd (fold (\<lambda>p (new, cnt).
             let k = closest m p cur
             in if k < n_cols cur then (col_add exact new k p, cnt[k := cnt ! k + 1]) else (new, cnt))
          ps acc)) = length (snd acc)" for ps and acc :: "real mat \<times> nat list"
    by (induction ps arbitrary: acc) (auto simp: Let_def split: prod.splits)
  then show ?thesis
    by (simp add: lloyd_sums_def)
qed

lemma empty_clusters_allowed:
  assumes "emptyClusterAction km = AllowEmptyClusters"
  shows "empty_clusters km data clusters i st =
           (if clusters \<le> length (counts st) \<or> clusters \<le> i then Inr st
            else Inl (OutOfBounds, st))"
  using assms
proof (induction km data clusters i st rule: empty_clusters.induct)
  case (1 km data clusters i st)
  have same: "st\<lparr>centroidsOther := centroidsOther st, counts := counts st, policy := policy st\<rparr> = st"
    "st\<lparr>centroids := centroids st, counts := counts st, policy := policy st\<rparr> = st"
    by simp_all
  show ?case
    using "1.IH" "1.prems" same
    by (subst empty_clusters.simps) (auto simp: AllowEmptyClusters_def)
qed

text \<open>The state in which the loop ends is the state a pass through the body ends in.\<close>

lemma Cluster_loop_last:
  "Cluster_loop km data clusters st0 = Inr st \<Longrightarrow>
     \<exists>prev c. Cluster_body km data clusters prev = Inr (c, st)"
proof (induction km data clusters st0 rule: Cluster_loop.induct)
  case (1 km data clusters st0)
  from "1.prems" "1.IH" show ?case
    by (subst (asm) Cluster_loop.simps) (auto split: sum.splits prod.splits if_splits)
qed

text \<open>
  With the Lloyd step of the specification and a policy that leaves empty clusters, a pass
  through the body writes the Lloyd update of the buffer it reads. In terms of roles:
  after the pass the current buffer is the update of the next one.
\<close>

lemma Cluster_body_update:
  assumes "lloydStep km = Iterate" and "emptyClusterAction km = AllowEmptyClusters"
    and "Cluster_body km data clusters prev = Inr (c, st)"
  shows "centroids (roles st) = lloyd_update (metric km) data (centroidsOther (roles st))"
proof (cases "iteration prev mod 2 = 0")
  case True
  let ?st1 = "prev\<lparr>centroidsOther := lloyd_update (metric km) data (centroids prev),
      counts := snd (lloyd_sums (metric km) data (centroids prev)), policy := policy prev\<rparr>"
  from True assms(1) have l: "lloyd_iterate km data prev =
      (Finite (frobenius (centroids prev) (lloyd_update (metric km) data (centroids prev))), ?st1)"
    by (simp add: lloyd_iterate_def Iterate_def Let_def)
  from assms(3) l empty_clusters_allowed [OF assms(2), of data clusters 0 ?st1]
  have st: "st = ?st1\<lparr>iteration := iteration prev + 1\<rparr>"
    by (auto simp: Cluster_body_def split: if_splits)
  from True have "(iteration prev + 1) mod 2 \<noteq> 0"
    by (simp add: even_iff_mod_2_eq_zero [symmetric])
  then show ?thesis
    by (simp add: st roles_def swap_roles_def)
next
  case False
  let ?st1 = "prev\<lparr>centroids := lloyd_update (metric km) data (centroidsOther prev),
      counts := snd (lloyd_sums (metric km) data (centroidsOther prev)), policy := policy prev\<rparr>"
  from False assms(1) have l: "lloyd_iterate km data prev =
      (Finite (frobenius (centroidsOther prev)
                 (lloyd_update (metric km) data (centroidsOther prev))), ?st1)"
    by (simp add: lloyd_iterate_def Iterate_def Let_def)
  from assms(3) l empty_clusters_allowed [OF assms(2), of data clusters 0 ?st1]
  have st: "st = ?st1\<lparr>iteration := iteration prev + 1\<rparr>"
    by (auto simp: Cluster_body_def split: if_splits)
  from False have "(iteration prev + 1) mod 2 = 0"
    by (simp add: even_iff_mod_2_eq_zero [symmetric])
  then show ?thesis
    by (simp add: st roles_def swap_roles_def)
qed

subsection \<open>The first pass through the body\<close>




text \<open>
  In a pass with an even counter the scan is the fold of the step over the cluster
  indices in increasing order.
\<close>

lemma scan_step_Inl [simp]: "scan_step km data i (Inl e) = Inl e"
  by (simp add: scan_step_def)


lemma fold_scan_step_Inl [simp]: "fold (scan_step km data) xs (Inl e) = Inl e"
  by (induction xs) simp_all



subsection \<open>Calls that return normally\<close>

lemma accumulate_returns:
  "\<forall>j. i \<le> j \<and> j < n_cols data \<longrightarrow> j < length assignments \<and> assignments ! j < n_cols cs \<Longrightarrow>
   length cnt = n_cols cs \<Longrightarrow>
     \<exists>r. accumulate ar data assignments i cs cnt = Inr r"
proof (induction ar data assignments i cs cnt rule: accumulate.induct)
  case (1 ar data assignments i cs cnt)
  show ?case
  proof (cases "i < n_cols data")
    case False
    then show ?thesis
      by (subst accumulate.simps) simp
  next
    case True
    with "1.prems" have ok: "i < length assignments \<and> assignments ! i < n_cols cs
        \<and> assignments ! i < length cnt"
      by auto
    have "\<exists>r. accumulate ar data assignments (i + 1)
        (col_add ar cs (assignments ! i) (cols data ! i))
        (cnt[assignments ! i := cnt ! (assignments ! i) + 1]) = Inr r"
      using "1.prems" by (intro "1.IH" [OF True ok]) auto
    with True ok show ?thesis
      by (subst accumulate.simps) simp
  qed
qed

lemma centroids_from_assignments_returns:
  assumes "n_cols data \<le> length assignments" and "\<forall>i<n_cols data. assignments ! i < clusters"
  shows "\<exists>c. centroids_from_assignments ar data clusters assignments = Inr c \<and>
    n_cols c = clusters \<and> check_guess data clusters c = None"
proof -
  from assms have "\<exists>r. accumulate ar data assignments 0 (zeros ar (n_rows data) clusters)
      (replicate clusters 0) = Inr r"
    by (intro accumulate_returns) auto
  then obtain c where c: "centroids_from_assignments ar data clusters assignments = Inr c"
    by (auto simp: centroids_from_assignments_def split: prod.splits)
  from shape_after_assignments [OF c] have "check_guess data clusters c = None" .
  moreover from this have "n_cols c = clusters"
    by (simp add: check_guess_def split: if_splits)
  ultimately show ?thesis
    using c by simp
qed

text \<open>With policies that keep the shapes, the loop with roles returns.\<close>

lemma keeps_shape_lloydStep:
  assumes "keeps_shape km data clusters" and "n_cols cur = clusters"
    and "lloydStep km s data (metric km) cur nxt cnt = (cNorm, new, cnt', s')"
  shows "n_cols new = clusters" and "length cnt' = clusters"
  using assms(1) [unfolded keeps_shape_def, THEN conjunct1, rule_format, OF assms(2),
      of s nxt cnt] assms(3)
  by simp_all

lemma keeps_shape_emptyClusterAction:
  assumes "keeps_shape km data clusters" and "n_cols new = clusters" and "length cnt = clusters"
    and "emptyClusterAction km s data i old new cnt (metric km) it = (new', cnt', s')"
  shows "n_cols new' = clusters" and "length cnt' = clusters"
  using assms(1) [unfolded keeps_shape_def, THEN conjunct2, rule_format,
      OF conjI [OF assms(2,3)], of s i old it] assms(4)
  by simp_all

lemma empty_clusters_roles_returns:
  "keeps_shape km data clusters \<Longrightarrow> n_cols (centroidsOther st) = clusters \<Longrightarrow>
   length (counts st) = clusters \<Longrightarrow>
     \<exists>st'. empty_clusters_roles km data clusters i st = Inr st' \<and>
       n_cols (centroidsOther st') = clusters \<and> length (counts st') = clusters"
proof (induction km data clusters i st rule: empty_clusters_roles.induct)
  case (1 km data clusters i st)
  show ?case
  proof (cases "i < clusters")
    case False
    with "1.prems" show ?thesis
      by (subst empty_clusters_roles.simps) simp
  next
    case True
    with "1.prems" have len: "i < length (counts st)"
      by simp
    show ?thesis
    proof (cases "counts st ! i = 0")
      case False
      with "1.IH"(2) [OF True len False "1.prems"] True len show ?thesis
        by (subst empty_clusters_roles.simps) simp
    next
      case zero: True
      obtain new cnt s where e: "emptyClusterAction km (policy st) data i
          (centroids st) (centroidsOther st) (counts st) (metric km) (iteration st) = (new, cnt, s)"
        by (cases "emptyClusterAction km (policy st) data i
          (centroids st) (centroidsOther st) (counts st) (metric km) (iteration st)")
      have sh: "n_cols new = clusters" "length cnt = clusters"
        by (rule keeps_shape_emptyClusterAction [OF "1.prems" e])+
      let ?st1 = "st\<lparr>centroidsOther := new, counts := cnt, policy := s\<rparr>"
      have "\<exists>st'. empty_clusters_roles km data clusters (i + 1) ?st1 = Inr st' \<and>
          n_cols (centroidsOther st') = clusters \<and> length (counts st') = clusters"
        using sh "1.prems"(1) by (intro "1.IH"(1) [OF True len zero e [symmetric] refl]) simp_all
      with True len zero e show ?thesis
        by (subst empty_clusters_roles.simps) simp
    qed
  qed
qed

lemma body_roles_returns:
  assumes "keeps_shape km data clusters" and "n_cols (centroids st) = clusters"
  shows "\<exists>c st'. body_roles km data clusters st = Inr (c, st') \<and> n_cols (centroids st') = clusters"
proof -
  obtain cNorm new cnt s where l: "lloydStep km (policy st) data (metric km)
      (centroids st) (centroidsOther st) (counts st) = (cNorm, new, cnt, s)"
    by (metis prod_cases4)
  have sh: "n_cols new = clusters" "length cnt = clusters"
    by (rule keeps_shape_lloydStep [OF assms l])+
  let ?st1 = "st\<lparr>centroidsOther := new, counts := cnt, policy := s\<rparr>"
  from empty_clusters_roles_returns [OF assms(1), of ?st1 0] sh
  obtain st2 where "empty_clusters_roles km data clusters 0 ?st1 = Inr st2"
    "n_cols (centroidsOther st2) = clusters"
    by auto
  with l show ?thesis
    by (simp add: body_roles_def swap_roles_def)
qed

lemma loop_roles_returns:
  "keeps_shape km data clusters \<Longrightarrow> n_cols (centroids st) = clusters \<Longrightarrow>
     \<exists>st'. loop_roles km data clusters st = Inr st' \<and> n_cols (centroids st') = clusters"
proof (induction km data clusters st rule: loop_roles.induct)
  case (1 km data clusters st)
  from body_roles_returns [OF "1.prems"] obtain c st' where
    b: "body_roles km data clusters st = Inr (c, st')" and n: "n_cols (centroids st') = clusters"
    by blast
  show ?case
  proof (cases "loop_test km c (iteration st')")
    case True
    from "1.IH" [OF b refl True "1.prems"(1) n] b True show ?thesis
      by (subst loop_roles.simps) simp
  next
    case False
    with b n show ?thesis
      by (subst loop_roles.simps) simp
  qed
qed

text \<open>So does the loop of the source, and the matrix it hands back has the columns.\<close>

lemma Cluster_loop_returns:
  assumes "keeps_shape km data clusters" and "n_cols cs = clusters"
  shows "\<exists>st. Cluster_loop km data clusters (loop_entry uninit clusters cs s) = Inr st \<and>
    n_cols (centroids (steal st)) = clusters"
proof -
  let ?st0 = "loop_entry uninit clusters cs s"
  have r0: "roles ?st0 = ?st0"
    by (simp add: roles_def loop_entry_def)
  from assms have "n_cols (centroids ?st0) = clusters"
    by (simp add: loop_entry_def)
  from loop_roles_returns [OF assms(1) this] obtain r where
    r: "loop_roles km data clusters ?st0 = Inr r" "n_cols (centroids r) = clusters"
    by blast
  from loop_roles [of km data clusters ?st0] r0 r(1)
  obtain st where "Cluster_loop km data clusters ?st0 = Inr st" "roles st = r"
    by (cases "Cluster_loop km data clusters ?st0") auto
  with r(2) show ?thesis
    by (simp add: centroids_steal)
qed

lemma Cluster_returns:
  assumes "keeps_shape km data clusters"
    and "initial_centroids ar km s data clusters guess initialGuess = Inr (cs, s')"
    and "n_cols cs = clusters"
  shows "\<exists>st. snd (Cluster ar km s uninit data clusters guess initialGuess) = Inr st \<and>
    n_cols (centroids st) = clusters"
  using Cluster_loop_returns [OF assms(1,3), of uninit s'] assms(2)
  by (auto simp: Cluster_def Cluster_finish_def)

lemma closest_below:
  assumes "0 < n_cols cs" and "\<forall>p c. dless (m p c) PInf"
  shows "closest m p cs \<noteq> n_cols cs"
proof -
  from assms have "\<exists>l<n_cols cs. dless (m p (cols cs ! l)) PInf"
    by blast
  with closest_first_min [of cs m p] show ?thesis
    by simp
qed

lemma Cluster_and_assign_returns:
  assumes "keeps_shape km data clusters"
    and "initial_centroids ar km s data clusters guess initialGuess = Inr (cs, s')"
    and "n_cols cs = clusters"
    and "debug \<longrightarrow> 1 \<le> clusters \<and> (\<forall>p c. dless (metric km p c) PInf)"
  shows "\<exists>st a. snd (Cluster_and_assign ar km s uninit debug data clusters assignments guess
      initialGuess) = Inr (st, a) \<and> n_cols (centroids st) = clusters"
proof -
  from Cluster_returns [OF assms(1,2,3), of uninit] obtain st where
    st: "snd (Cluster ar km s uninit data clusters guess initialGuess) = Inr st"
    "n_cols (centroids st) = clusters"
    by blast
  have "debug \<longrightarrow> (\<forall>l<n_cols data.
      closest (metric km) (cols data ! l) (centroids st) \<noteq> n_cols (centroids st))"
  proof (intro impI allI)
    fix l
    assume debug
    with assms(4) st(2) have "0 < n_cols (centroids st)" "\<forall>p c. dless (metric km p c) PInf"
      by simp_all
    then show "closest (metric km) (cols data ! l) (centroids st) \<noteq> n_cols (centroids st)"
      by (rule closest_below)
  qed
  from final_assignments_returns [OF this] obtain a where
    "final_assignments debug (metric km) data (centroids st) 0
       (set_size (\<lambda>i. uninit (clusters + i)) (n_cols data) assignments) = Inr a"
    by blast
  with st show ?thesis
    by (cases "Cluster ar km s uninit data clusters guess initialGuess")
       (auto simp: Cluster_and_assign_def)
qed

lemma Cluster_assignments_returns:
  assumes "\<not> fatal_configuration data clusters assignments guess iag icg"
    and "keeps_shape km data clusters"
    and "partition_in_range km s data clusters assignments guess iag icg"
    and "debug \<longrightarrow> 1 \<le> clusters \<and> (\<forall>p c. dless (metric km p c) PInf)"
  shows "\<exists>st a. snd (Cluster_assignments ar km s uninit debug data clusters assignments guess
      iag icg) = Inr (st, a) \<and> n_cols (centroids st) = clusters"
proof (cases iag)
  case True
  with assms(1) have len: "length assignments = n_cols data"
    by (simp add: fatal_configuration_def)
  from assms(3) True have "\<forall>i<n_cols data. assignments ! i < clusters"
    by (simp add: partition_in_range_def)
  from centroids_from_assignments_returns [OF _ this, of ar] len obtain c where
    c: "centroids_from_assignments ar data clusters assignments = Inr c"
    "n_cols c = clusters" "check_guess data clusters c = None"
    by auto
  then have i: "initial_centroids ar km s data clusters c True = Inr (c, s)"
    by (simp add: initial_centroids_def)
  from Cluster_and_assign_returns [OF assms(2) i c(2) assms(4)] True len c(1)
  show ?thesis
    by (simp add: Cluster_assignments_def)
next
  case False
  note niag = False
  have "\<exists>cs s'. initial_centroids ar km s data clusters guess icg = Inr (cs, s') \<and>
      n_cols cs = clusters"
  proof (cases icg)
    case True
    with assms(1) niag have "check_guess data clusters guess = None" "n_cols guess = clusters"
      by (simp_all add: fatal_configuration_def check_guess_def)
    with True show ?thesis
      by (simp add: initial_centroids_def)
  next
    case False
    show ?thesis
    proof (cases "partitioner km")
      case (GivesAssignments f)
      obtain a s' where f: "f s data clusters = (a, s')"
        by (cases "f s data clusters")
      with assms(3) niag False GivesAssignments
      have "n_cols data \<le> length a" "\<forall>i<n_cols data. a ! i < clusters"
        by (simp_all add: partition_in_range_def)
      from centroids_from_assignments_returns [OF this, of ar] obtain c where
        "centroids_from_assignments ar data clusters a = Inr c" "n_cols c = clusters"
        by auto
      with False GivesAssignments f show ?thesis
        by (simp add: initial_centroids_def GetInitialAssignmentsOrCentroids_def)
    next
      case (GivesCentroids g)
      with assms(3) niag False have "n_cols (fst (g s data clusters guess)) = clusters"
        by (simp add: partition_in_range_def)
      with False GivesCentroids show ?thesis
        by (cases "g s data clusters guess")
           (simp add: initial_centroids_def GetInitialAssignmentsOrCentroids_def)
    qed
  qed
  then obtain cs s' where i: "initial_centroids ar km s data clusters guess icg = Inr (cs, s')"
    and n: "n_cols cs = clusters"
    by blast
  from Cluster_and_assign_returns [OF assms(2) i n assms(4)] niag
  show ?thesis
    by (simp add: Cluster_assignments_def)
qed

text \<open>The policies of the specification keep the shapes.\<close>

lemma n_cols_lloyd_sums: "n_cols (fst (lloyd_sums m data cur)) = n_cols cur"
proof -
  have "n_cols (fst (fold (\<lambda>p (new, cnt).
             let k = closest m p cur
             in if k < n_cols cur then (col_add exact new k p, cnt[k := cnt ! k + 1]) else (new, cnt))
          ps acc)) = n_cols (fst acc)" for ps and acc :: "real mat \<times> nat list"
    by (induction ps arbitrary: acc) (auto simp: Let_def split: prod.splits)
  then show ?thesis
    by (simp add: lloyd_sums_def)
qed

lemma n_cols_lloyd_update: "n_cols (lloyd_update m data cur) = n_cols cur"
proof -
  obtain acc cnt where l: "lloyd_sums m data cur = (acc, cnt)"
    by (cases "lloyd_sums m data cur")
  with n_cols_lloyd_sums [of m data cur] have "n_cols acc = n_cols cur"
    by simp
  with divide_by_counts_means [where clusters = "n_cols cur" and cs = acc and i = 0
      and cnt = cnt and ar = exact] l
  show ?thesis
    by (simp add: lloyd_update_def)
qed

lemma keeps_shape_example: "keeps_shape (example_km M) data clusters"
  by (simp add: keeps_shape_def example_km_def Iterate_def AllowEmptyClusters_def Let_def
      n_cols_lloyd_update length_lloyd_sums)

lemma EuclideanDistance_finite: "dless (EuclideanDistance p c) PInf"
  by (simp add: EuclideanDistance_def)

section \<open>The claims\<close>




text \<open>
  C2 (as the code has it). The size check of the assignment guess comes first and the
  shape check of the centroid guess is made only when no assignment guess is supplied.
  In both cases the abort hands back the caller's buffers untouched, before any policy is
  called, and no other configuration ends in a fatal configuration error. Any other call
  returns normally, with as many centroids as clusters, whatever the number of clusters,
  the number of points and \<^verbatim>\<open>maxIterations\<close> are, when the policies keep the shapes and
  the initial partition is in range, and, in a debug build, there is a cluster and the
  metric stays below infinity.
\<close>

theorem fatal_configuration_errors:
  "(iag \<and> length assignments \<noteq> n_cols data \<longrightarrow>
      Cluster_assignments ar km s uninit debug data clusters assignments guess iag icg =
        ([], Inl (Fatal WrongAssignmentsSize, guess, assignments))) \<and>
   (\<not> iag \<and> icg \<and> (n_cols guess \<noteq> clusters \<or> n_rows guess \<noteq> n_rows data) \<longrightarrow>
      (\<exists>f. Cluster_assignments ar km s uninit debug data clusters assignments guess iag icg =
         (config_warnings data clusters, Inl (Fatal f, guess, assignments)))) \<and>
   ((\<exists>f c a. snd (Cluster_assignments ar km s uninit debug data clusters assignments guess iag icg)
        = Inl (Fatal f, c, a)) \<longleftrightarrow>
      (iag \<and> length assignments \<noteq> n_cols data) \<or>
      (\<not> iag \<and> icg \<and> (n_cols guess \<noteq> clusters \<or> n_rows guess \<noteq> n_rows data))) \<and>
   ((\<exists>f c. snd (Cluster ar km s uninit data clusters guess initialGuess) = Inl (Fatal f, c)) \<longleftrightarrow>
      initialGuess \<and> (n_cols guess \<noteq> clusters \<or> n_rows guess \<noteq> n_rows data)) \<and>
   (\<forall>f c. snd (Cluster ar km s uninit data clusters guess initialGuess) = Inl (Fatal f, c) \<longrightarrow>
      c = guess) \<and>
   (fatal_configuration data clusters assignments guess iag icg \<longleftrightarrow>
      (iag \<and> length assignments \<noteq> n_cols data) \<or>
      (\<not> iag \<and> icg \<and> (n_cols guess \<noteq> clusters \<or> n_rows guess \<noteq> n_rows data))) \<and>
   (\<not> fatal_configuration data clusters assignments guess iag icg \<and>
    keeps_shape km data clusters \<and>
    partition_in_range km s data clusters assignments guess iag icg \<and>
    (debug \<longrightarrow> 1 \<le> clusters \<and> (\<forall>p c. dless (metric km p c) PInf)) \<longrightarrow>
      (\<exists>st a. snd (Cluster_assignments ar km s uninit debug data clusters assignments guess
                     iag icg) = Inr (st, a) \<and>
         n_cols (centroids st) = clusters))"
proof (intro conjI)
  show "iag \<and> length assignments \<noteq> n_cols data \<longrightarrow>
      Cluster_assignments ar km s uninit debug data clusters assignments guess iag icg =
        ([], Inl (Fatal WrongAssignmentsSize, guess, assignments))"
    by (simp add: Cluster_assignments_def)
next
  show "\<not> iag \<and> icg \<and> (n_cols guess \<noteq> clusters \<or> n_rows guess \<noteq> n_rows data) \<longrightarrow>
      (\<exists>f. Cluster_assignments ar km s uninit debug data clusters assignments guess iag icg =
         (config_warnings data clusters, Inl (Fatal f, guess, assignments)))"
    by (auto simp: Cluster_assignments_def Cluster_and_assign_def Cluster_def
        initial_centroids_def check_guess_def)
next
  show "(\<exists>f c a. snd (Cluster_assignments ar km s uninit debug data clusters assignments guess iag icg)
        = Inl (Fatal f, c, a)) \<longleftrightarrow>
      (iag \<and> length assignments \<noteq> n_cols data) \<or>
      (\<not> iag \<and> icg \<and> (n_cols guess \<noteq> clusters \<or> n_rows guess \<noteq> n_rows data))"
  proof (cases iag)
    case False
    then show ?thesis
      using check_guess_Some [of data clusters guess]
      by (auto simp: Cluster_assignments_def Cluster_and_assign_fatal)
  next
    case True
    show ?thesis
    proof (cases "length assignments = n_cols data")
      case False
      with True show ?thesis
        by (simp add: Cluster_assignments_def)
    next
      case len: True
      show ?thesis
      proof (cases "centroids_from_assignments ar data clusters assignments")
        case (Inl p)
        then show ?thesis
          using True len
          by (cases p) (auto simp: Cluster_assignments_def dest: centroids_from_assignments_error)
      next
        case (Inr c)
        with shape_after_assignments [OF Inr] True len show ?thesis
          by (simp add: Cluster_assignments_def Cluster_and_assign_fatal)
      qed
    qed
  qed
next
  show "(\<exists>f c. snd (Cluster ar km s uninit data clusters guess initialGuess) = Inl (Fatal f, c)) \<longleftrightarrow>
      initialGuess \<and> (n_cols guess \<noteq> clusters \<or> n_rows guess \<noteq> n_rows data)"
    using check_guess_Some [of data clusters guess] by (auto simp: Cluster_fatal)
next
  show "\<forall>f c. snd (Cluster ar km s uninit data clusters guess initialGuess) = Inl (Fatal f, c) \<longrightarrow>
      c = guess"
    by (simp add: Cluster_fatal)
next
  show "fatal_configuration data clusters assignments guess iag icg \<longleftrightarrow>
      (iag \<and> length assignments \<noteq> n_cols data) \<or>
      (\<not> iag \<and> icg \<and> (n_cols guess \<noteq> clusters \<or> n_rows guess \<noteq> n_rows data))"
    by (simp add: fatal_configuration_def)
next
  show "\<not> fatal_configuration data clusters assignments guess iag icg \<and>
    keeps_shape km data clusters \<and>
    partition_in_range km s data clusters assignments guess iag icg \<and>
    (debug \<longrightarrow> 1 \<le> clusters \<and> (\<forall>p c. dless (metric km p c) PInf)) \<longrightarrow>
      (\<exists>st a. snd (Cluster_assignments ar km s uninit debug data clusters assignments guess
                     iag icg) = Inr (st, a) \<and>
         n_cols (centroids st) = clusters)"
    using Cluster_assignments_returns [of data clusters assignments guess iag icg km s debug
        ar uninit]
    by blast
qed

theorem fatal_configuration_errors_witness:
  "n_cols wide_guess \<noteq> 2 \<and>
   (\<exists>f. Cluster_assignments exact (example_km 0) () (\<lambda>i. 0) False example_data 2 [] wide_guess
           False True =
         (config_warnings example_data 2, Inl (Fatal f, wide_guess, []))) \<and>
   length [0::nat] \<noteq> n_cols example_data \<and>
   Cluster_assignments exact (example_km 0) () (\<lambda>i. 0) False example_data 2 [0] example_guess
       True False =
     ([], Inl (Fatal WrongAssignmentsSize, example_guess, [0])) \<and>
   \<not> fatal_configuration one_point 2 [] empty_mat False False \<and>
   keeps_shape (example_km 0) one_point 2 \<and>
   partition_in_range (example_km 0) () one_point 2 [] empty_mat False False \<and>
   (\<exists>st a. snd (Cluster_assignments exact (example_km 0) () (\<lambda>i. 0) True one_point 2 []
                  empty_mat False False) = Inr (st, a) \<and>
      n_cols (centroids st) = 2) \<and>
   Cluster_assignments exact (example_km 0) () (\<lambda>i. 0) True one_point 2 [] empty_mat
       False False =
     ([MoreClustersThanPoints],
      Inr (\<lparr>centroids = \<lparr>n_rows = 1, cols = [[3], [0]]\<rparr>, centroidsOther = empty_mat,
            counts = [1, 0], iteration = 1, policy = ()\<rparr>,
           [0]))"
proof -
  have a: "n_cols wide_guess \<noteq> 2"
    by (simp add: wide_guess_def n_cols_def)
  have b: "length [0::nat] \<noteq> n_cols example_data"
    by (simp add: example_data_def n_cols_def)
  note t1 = fatal_configuration_errors [where iag = False and icg = True and guess = wide_guess
      and clusters = 2 and data = example_data and assignments = "[]"
      and km = "example_km 0" and s = "()" and uninit = "\<lambda>i. 0" and debug = False
      and ar = exact]
  note t2 = fatal_configuration_errors [where iag = True and icg = False and guess = example_guess
      and clusters = 2 and data = example_data and assignments = "[0]"
      and km = "example_km 0" and s = "()" and uninit = "\<lambda>i. 0" and debug = False
      and ar = exact]
  note t3 = fatal_configuration_errors [where iag = False and icg = False and guess = empty_mat
      and clusters = 2 and data = one_point and assignments = "[]"
      and km = "example_km 0" and s = "()" and uninit = "\<lambda>i. 0" and debug = True
      and ar = exact]
  from a t1 have c: "\<exists>f. Cluster_assignments exact (example_km 0) () (\<lambda>i. 0) False example_data 2
      [] wide_guess False True = (config_warnings example_data 2, Inl (Fatal f, wide_guess, []))"
    by simp
  from b t2 have d: "Cluster_assignments exact (example_km 0) () (\<lambda>i. 0) False example_data 2
      [0] example_guess True False = ([], Inl (Fatal WrongAssignmentsSize, example_guess, [0]))"
    by simp
  have e: "\<not> fatal_configuration one_point 2 [] empty_mat False False"
    by (simp add: fatal_configuration_def)
  have f: "keeps_shape (example_km 0) one_point 2"
    by (rule keeps_shape_example)
  have g: "partition_in_range (example_km 0) () one_point 2 [] empty_mat False False"
    by (simp add: partition_in_range_def example_km_def round_robin_def one_point_def n_cols_def)
  have h: "True \<longrightarrow> 1 \<le> (2::nat) \<and> (\<forall>p c. dless (metric (example_km 0) p c) PInf)"
    by (simp add: example_km_def EuclideanDistance_finite)
  have i: "\<exists>st a. snd (Cluster_assignments exact (example_km 0) () (\<lambda>i. 0) True one_point 2 []
      empty_mat False False) = Inr (st, a) \<and> n_cols (centroids st) = 2"
    by (rule t3 [THEN conjunct2, THEN conjunct2, THEN conjunct2, THEN conjunct2,
          THEN conjunct2, THEN conjunct2, rule_format, OF conjI [OF e conjI [OF f conjI [OF g h]]]])
  have j: "Cluster_assignments exact (example_km 0) () (\<lambda>i. 0) True one_point 2 [] empty_mat
       False False =
     ([MoreClustersThanPoints],
      Inr (\<lparr>centroids = \<lparr>n_rows = 1, cols = [[3], [0]]\<rparr>, centroidsOther = empty_mat,
            counts = [1, 0], iteration = 1, policy = ()\<rparr>,
           [0]))"
    by (simp add: run_simps one_point_def)
  show ?thesis
    by (intro conjI) (rule a, rule c, rule b, rule d, rule e, rule f, rule g, rule i, rule j)
qed

text \<open>
  The claim as stated fails on both sides. With both guesses supplied, a centroid guess
  with three columns for two clusters is not rejected: it is overwritten and the run
  completes. And a configuration with no fatal error may still abort: with zero clusters
  a debug build ends in the failed assertion of the final pass (a release build returns,
  with the invalid value 0 for every point); an assignment guess that names a cluster
  out of range ends the call when the matrix is indexed; with a metric whose value is NaN
  a debug build ends in the same assertion; and with a Lloyd step that returns no counts
  the scan for empty clusters reads out of range.
\<close>

theorem wrong_centroid_guess_not_rejected:
  "n_cols wide_guess \<noteq> 2 \<and>
   Cluster_assignments exact (example_km 0) () (\<lambda>i. 0) False example_data 2 [0, 0, 0, 0, 0, 1]
       wide_guess True True =
     ([], Inr (\<lparr>centroids = \<lparr>n_rows = 1, cols = [[3 / 2], [9 / 2]]\<rparr>,
                centroidsOther = \<lparr>n_rows = 1, cols = [[3 / 2], [9 / 2]]\<rparr>,
                counts = [4, 2], iteration = 2, policy = ()\<rparr>,
               [0, 0, 0, 0, 1, 1])) \<and>
   \<not> fatal_configuration example_data 0 [] \<lparr>n_rows = 1, cols = []\<rparr> False True \<and>
   Cluster_assignments exact (example_km 0) () (\<lambda>i. 0) True example_data 0 []
       \<lparr>n_rows = 1, cols = []\<rparr> False True =
     ([ZeroClusters],
      Inl (AssertFailed, \<lparr>n_rows = 1, cols = []\<rparr>, [0, 0, 0, 0, 0, 0])) \<and>
   Cluster_assignments exact (example_km 0) () (\<lambda>i. 0) False example_data 0 []
       \<lparr>n_rows = 1, cols = []\<rparr> False True =
     ([ZeroClusters],
      Inr (\<lparr>centroids = \<lparr>n_rows = 1, cols = []\<rparr>, centroidsOther = empty_mat,
            counts = [], iteration = 1, policy = ()\<rparr>,
           [0, 0, 0, 0, 0, 0])) \<and>
   \<not> fatal_configuration example_data 2 [0, 0, 0, 0, 0, 7] example_guess True False \<and>
   Cluster_assignments exact (example_km 0) () (\<lambda>i. 0) False example_data 2
       [0, 0, 0, 0, 0, 7] example_guess True False =
     ([], Inl (OutOfBounds, \<lparr>n_rows = 1, cols = [[10], [0]]\<rparr>, [0, 0, 0, 0, 0, 7])) \<and>
   \<not> fatal_configuration example_data 2 [] example_guess False True \<and>
   Cluster_assignments exact ((example_km 0)\<lparr>metric := nan_metric\<rparr>) () (\<lambda>i. 0) True
       example_data 2 [] example_guess False True =
     ([], Inl (AssertFailed, \<lparr>n_rows = 1, cols = [[0], [0]]\<rparr>, [0, 0, 0, 0, 0, 0])) \<and>
   Cluster_assignments exact
       ((example_km 0)\<lparr>lloydStep := (\<lambda>s data m cur nxt cnt. (Finite 0, cur, [], s))\<rparr>) ()
       (\<lambda>i. 0) False example_data 2 [] example_guess False True =
     ([], Inl (OutOfBounds, example_guess, []))"
  by (simp add: run_simps wide_guess_def fatal_configuration_def nan_metric_def)

text \<open>
  C3 (as the code has it). \<^verbatim>\<open>maxIterations\<close> plays no part in the warnings: the only
  warnings are the one for more clusters than points and, otherwise, the one for zero
  clusters. A call with \<^verbatim>\<open>maxIterations = 0\<close> logs what the same call with any other
  bound logs, and sets up the same initial centroids. Then the run proceeds: after every
  pass through the body the loop goes on exactly when the residual exceeds the threshold
  and the 64-bit counter has not wrapped around to 0, so the test of the count ends the
  loop only after \<open>2\<^sup>6\<^sup>4\<close> passes.
\<close>

theorem Cluster_warnings:
  "fst (Cluster ar km s uninit data clusters guess initialGuess) =
     (if clusters > n_cols data then [MoreClustersThanPoints]
      else if clusters = 0 then [ZeroClusters]
      else []) \<and>
   fst (Cluster ar (km\<lparr>maxIterations := 0\<rparr>) s uninit data clusters guess initialGuess) =
     fst (Cluster ar km s uninit data clusters guess initialGuess) \<and>
   initial_centroids ar (km\<lparr>maxIterations := 0\<rparr>) s data clusters guess initialGuess =
     initial_centroids ar km s data clusters guess initialGuess \<and>
   Cluster_loop (km\<lparr>maxIterations := 0\<rparr>) data clusters st =
     (case Cluster_body (km\<lparr>maxIterations := 0\<rparr>) data clusters st of
        Inl e \<Rightarrow> Inl e
      | Inr (cNorm, st') \<Rightarrow>
          if dless (Finite threshold) cNorm \<and> iteration st + 1 \<noteq> 0
          then Cluster_loop (km\<lparr>maxIterations := 0\<rparr>) data clusters st'
          else Inr st') \<and>
   (\<exists>n. 1 \<le> n \<and> n \<le> 2 ^ 64 \<and>
      snd (Cluster ar (km\<lparr>maxIterations := 0\<rparr>) s uninit data clusters guess initialGuess) =
        (case initial_centroids ar km s data clusters guess initialGuess of
           Inl e \<Rightarrow> Inl e
         | Inr (cs, s') \<Rightarrow>
             Cluster_finish
               ((Cluster_step (km\<lparr>maxIterations := 0\<rparr>) data clusters ^^ n)
                  (Inr (loop_entry uninit clusters cs s')))))"
proof (intro conjI)
  show "fst (Cluster ar km s uninit data clusters guess initialGuess) =
     (if clusters > n_cols data then [MoreClustersThanPoints]
      else if clusters = 0 then [ZeroClusters]
      else [])"
    by (simp add: Cluster_def config_warnings_def)
next
  show "fst (Cluster ar (km\<lparr>maxIterations := 0\<rparr>) s uninit data clusters guess initialGuess) =
     fst (Cluster ar km s uninit data clusters guess initialGuess)"
    by (simp add: Cluster_def)
next
  show i: "initial_centroids ar (km\<lparr>maxIterations := 0\<rparr>) s data clusters guess initialGuess =
     initial_centroids ar km s data clusters guess initialGuess"
    by (simp add: initial_centroids_def)
next
  show "Cluster_loop (km\<lparr>maxIterations := 0\<rparr>) data clusters st =
     (case Cluster_body (km\<lparr>maxIterations := 0\<rparr>) data clusters st of
        Inl e \<Rightarrow> Inl e
      | Inr (cNorm, st') \<Rightarrow>
          if dless (Finite threshold) cNorm \<and> iteration st + 1 \<noteq> 0
          then Cluster_loop (km\<lparr>maxIterations := 0\<rparr>) data clusters st'
          else Inr st')"
    by (subst Cluster_loop.simps)
       (auto simp: loop_test_def split: sum.splits dest: Cluster_body_iteration)
next
  let ?km = "km\<lparr>maxIterations := 0\<rparr>"
  have i: "initial_centroids ar ?km s data clusters guess initialGuess =
     initial_centroids ar km s data clusters guess initialGuess"
    by (simp add: initial_centroids_def)
  show "\<exists>n. 1 \<le> n \<and> n \<le> 2 ^ 64 \<and>
      snd (Cluster ar ?km s uninit data clusters guess initialGuess) =
        (case initial_centroids ar km s data clusters guess initialGuess of
           Inl e \<Rightarrow> Inl e
         | Inr (cs, s') \<Rightarrow>
             Cluster_finish
               ((Cluster_step ?km data clusters ^^ n) (Inr (loop_entry uninit clusters cs s'))))"
  proof (cases "initial_centroids ar km s data clusters guess initialGuess")
    case (Inl e)
    then show ?thesis
      by (intro exI [of _ 1]) (simp add: Cluster_def i)
  next
    case (Inr p)
    obtain cs s' where p: "p = (cs, s')" by (cases p)
    have "maxIterations ?km = 0" "iteration (loop_entry uninit clusters cs s') = 0"
      by (simp_all add: loop_entry_def)
    from Cluster_loop_unbounded [OF this, of data clusters]
    obtain n where "1 \<le> n" "n \<le> 2 ^ 64"
      "Cluster_loop ?km data clusters (loop_entry uninit clusters cs s') =
         (Cluster_step ?km data clusters ^^ n) (Inr (loop_entry uninit clusters cs s'))"
      by blast
    with Inr p show ?thesis
      by (intro exI [of _ n]) (simp add: Cluster_def i)
  qed
qed

theorem Cluster_warnings_witness:
  "fst (Cluster exact (example_km 5) () (\<lambda>i. 0) example_data 7 example_guess True) =
     [MoreClustersThanPoints] \<and>
   fst (Cluster exact (example_km 5) () (\<lambda>i. 0) example_data 0 example_guess True) =
     [ZeroClusters] \<and>
   fst (Cluster exact ((example_km 5)\<lparr>maxIterations := 0\<rparr>) () (\<lambda>i. 0) example_data 2
          example_guess True) =
     fst (Cluster exact (example_km 5) () (\<lambda>i. 0) example_data 2 example_guess True) \<and>
   Cluster_body ((example_km 5)\<lparr>maxIterations := 0\<rparr>) example_data 2
       (loop_entry (\<lambda>i. 0) 2 example_guess ()) =
     Inr (Finite 2,
          \<lparr>centroids = example_guess, centroidsOther = \<lparr>n_rows = 1, cols = [[0], [3]]\<rparr>,
           counts = [1, 5], iteration = 1, policy = ()\<rparr>) \<and>
   Cluster_loop ((example_km 5)\<lparr>maxIterations := 0\<rparr>) example_data 2
       (loop_entry (\<lambda>i. 0) 2 example_guess ()) =
     Cluster_loop ((example_km 5)\<lparr>maxIterations := 0\<rparr>) example_data 2
       \<lparr>centroids = example_guess, centroidsOther = \<lparr>n_rows = 1, cols = [[0], [3]]\<rparr>,
        counts = [1, 5], iteration = 1, policy = ()\<rparr>"
proof -
  let ?km = "(example_km 5)\<lparr>maxIterations := 0\<rparr>"
  let ?st = "loop_entry (\<lambda>i. 0) 2 example_guess ()"
  have n: "n_cols example_data = 6"
    by (simp add: example_data_def n_cols_def)
  have a: "fst (Cluster exact (example_km 5) () (\<lambda>i. 0) example_data 7 example_guess True) =
      [MoreClustersThanPoints]"
    using Cluster_warnings [where ar = exact and km = "example_km 5" and s = "()"
        and uninit = "\<lambda>i. 0" and data = example_data and clusters = 7 and guess = example_guess
        and initialGuess = True and st = "?st", THEN conjunct1]
    by (simp add: n)
  have b: "fst (Cluster exact (example_km 5) () (\<lambda>i. 0) example_data 0 example_guess True) =
      [ZeroClusters]"
    using Cluster_warnings [where ar = exact and km = "example_km 5" and s = "()"
        and uninit = "\<lambda>i. 0" and data = example_data and clusters = 0 and guess = example_guess
        and initialGuess = True and st = "?st", THEN conjunct1]
    by (simp add: n)
  note t = Cluster_warnings [where ar = exact and km = "example_km 5" and s = "()"
      and uninit = "\<lambda>i. 0" and data = example_data and clusters = 2 and guess = example_guess
      and initialGuess = True and st = "?st"]
  have c: "fst (Cluster exact ?km () (\<lambda>i. 0) example_data 2 example_guess True) =
      fst (Cluster exact (example_km 5) () (\<lambda>i. 0) example_data 2 example_guess True)"
    by (rule t [THEN conjunct2, THEN conjunct1])
  have d: "Cluster_body ?km example_data 2 ?st =
      Inr (Finite 2,
           \<lparr>centroids = example_guess, centroidsOther = \<lparr>n_rows = 1, cols = [[0], [3]]\<rparr>,
            counts = [1, 5], iteration = 1, policy = ()\<rparr>)"
    by (simp add: run_simps)
  have e: "Cluster_loop ?km example_data 2 ?st =
      Cluster_loop ?km example_data 2
        \<lparr>centroids = example_guess, centroidsOther = \<lparr>n_rows = 1, cols = [[0], [3]]\<rparr>,
         counts = [1, 5], iteration = 1, policy = ()\<rparr>"
    by (subst t [THEN conjunct2, THEN conjunct2, THEN conjunct2, THEN conjunct1])
       (simp only: d, simp add: loop_entry_def threshold_def)
  show ?thesis
    by (intro conjI) (rule a, rule b, rule c, rule d, rule e)
qed

text \<open>
  The claim as stated fails: with \<^verbatim>\<open>maxIterations = 0\<close>, two clusters and six points
  the run logs no warning and converges after four iterations.
\<close>

theorem no_warning_for_zero_maxIterations:
  "maxIterations (example_km 0) = 0 \<and>
   Cluster exact (example_km 0) () (\<lambda>i. 0) example_data 2 example_guess True =
     ([], Inr \<lparr>centroids = \<lparr>n_rows = 1, cols = [[1], [4]]\<rparr>,
               centroidsOther = \<lparr>n_rows = 1, cols = [[1], [4]]\<rparr>,
               counts = [3, 3], iteration = 4, policy = ()\<rparr>)"
  by (simp add: run_simps)

text \<open>
  C4. With \<^verbatim>\<open>maxIterations = M > 0\<close>, a run that reaches the loop is the outcome of
  \<open>n\<close> iterations with \<open>1 \<le> n \<le> M\<close>, and after \<open>k \<le> n\<close> of them the counter is \<open>k\<close>:
  it never exceeds \<open>M\<close>.
\<close>

theorem Cluster_iterations_bounded:
  assumes "maxIterations km \<noteq> 0"
    and "initial_centroids ar km s data clusters guess initialGuess = Inr (cs, s')"
  shows "\<exists>n. 1 \<le> n \<and> n \<le> unat (maxIterations km) \<and>
     snd (Cluster ar km s uninit data clusters guess initialGuess) =
       Cluster_finish
         ((Cluster_step km data clusters ^^ n) (Inr (loop_entry uninit clusters cs s'))) \<and>
     (\<forall>k st. k \<le> n \<and>
        (Cluster_step km data clusters ^^ k) (Inr (loop_entry uninit clusters cs s')) = Inr st
        \<longrightarrow> unat (iteration st) = k \<and> k \<le> unat (maxIterations km))"
proof -
  let ?st0 = "loop_entry uninit clusters cs s'"
  have z: "iteration ?st0 = 0"
    by (simp add: loop_entry_def)
  from assms(1) have "unat (iteration ?st0) < unat (maxIterations km)"
    by (simp add: z unat_gt_0)
  from Cluster_loop_bounded [OF this, of data clusters] z
  obtain n where n: "1 \<le> n" "n \<le> unat (maxIterations km)"
    "Cluster_loop km data clusters ?st0 = (Cluster_step km data clusters ^^ n) (Inr ?st0)"
    by auto
  have "unat (iteration st) = k \<and> k \<le> unat (maxIterations km)"
    if "k \<le> n" "(Cluster_step km data clusters ^^ k) (Inr ?st0) = Inr st" for k st
  proof -
    from Cluster_step_iteration [OF that(2)] z have "iteration st = of_nat k"
      by simp
    moreover from that(1) n(2) have "k \<le> unat (maxIterations km)"
      by simp
    ultimately show ?thesis
      by (simp add: le_unat_uoi)
  qed
  with n assms(2) show ?thesis
    by (intro exI [of _ n]) (simp add: Cluster_def)
qed

theorem Cluster_iterations_bounded_witness:
  "maxIterations (example_km 2) \<noteq> 0 \<and>
   initial_centroids exact (example_km 2) () example_data 2 example_guess True = Inr (example_guess, ()) \<and>
   (\<exists>n. 1 \<le> n \<and> n \<le> 2 \<and>
      snd (Cluster exact (example_km 2) () (\<lambda>i. 0) example_data 2 example_guess True) =
        Cluster_finish
          ((Cluster_step (example_km 2) example_data 2 ^^ n)
             (Inr (loop_entry (\<lambda>i. 0) 2 example_guess ()))))"
proof -
  have a: "maxIterations (example_km 2) \<noteq> 0"
    by (simp add: example_km_def)
  have b: "initial_centroids exact (example_km 2) () example_data 2 example_guess True
             = Inr (example_guess, ())"
    by (simp add: initial_centroids_def check_guess_def n_cols_def example_data_def
        example_guess_def)
  from Cluster_iterations_bounded [OF a b, of "\<lambda>i. 0"] a b show ?thesis
    by (auto simp: example_km_def)
qed

text \<open>
  C5. On normal exit of the loop the matrix returned to the caller is the buffer the last
  iteration wrote. The loop of the source, which picks its buffers by the parity of the
  counter, ends in the state the loop with named roles ends in, seen through \<open>roles\<close>;
  the returned matrix is the current buffer there, which is \<^verbatim>\<open>centroidsOther\<close> when
  the last iteration had an even index and \<^verbatim>\<open>centroids\<close> otherwise.
\<close>

theorem returned_centroids_most_recent:
  assumes "initial_centroids ar km s data clusters guess initialGuess = Inr (cs, s')"
    and "Cluster_loop km data clusters (loop_entry uninit clusters cs s') = Inr st"
  shows "snd (Cluster ar km s uninit data clusters guess initialGuess) = Inr (steal st) \<and>
         loop_roles km data clusters (loop_entry uninit clusters cs s') = Inr (roles st) \<and>
         centroids (steal st) = centroids (roles st) \<and>
         centroids (steal st) =
           (if (iteration st - 1) mod 2 = 0 then centroidsOther st else centroids st)"
proof -
  have "roles (loop_entry uninit clusters cs s') = loop_entry uninit clusters cs s'"
    by (simp add: roles_def loop_entry_def)
  with loop_roles [of km data clusters "loop_entry uninit clusters cs s'"] assms(2)
  have "loop_roles km data clusters (loop_entry uninit clusters cs s') = Inr (roles st)"
    by simp
  moreover have "centroids (steal st) =
      (if (iteration st - 1) mod 2 = 0 then centroidsOther st else centroids st)"
    by (simp add: steal_def)
  ultimately show ?thesis
    using assms by (simp add: Cluster_def Cluster_finish_def centroids_steal)
qed

theorem returned_centroids_most_recent_witness:
  "initial_centroids exact (example_km 3) () example_data 2 example_guess True = Inr (example_guess, ()) \<and>
   Cluster_loop (example_km 3) example_data 2 (loop_entry (\<lambda>i. 0) 2 example_guess ()) =
     Inr \<lparr>centroids = \<lparr>n_rows = 1, cols = [[1 / 2], [7 / 2]]\<rparr>,
          centroidsOther = \<lparr>n_rows = 1, cols = [[1], [4]]\<rparr>,
          counts = [3, 3], iteration = 3, policy = ()\<rparr> \<and>
   snd (Cluster exact (example_km 3) () (\<lambda>i. 0) example_data 2 example_guess True) =
     Inr \<lparr>centroids = \<lparr>n_rows = 1, cols = [[1], [4]]\<rparr>, centroidsOther = empty_mat,
          counts = [3, 3], iteration = 3, policy = ()\<rparr> \<and>
   loop_roles (example_km 3) example_data 2 (loop_entry (\<lambda>i. 0) 2 example_guess ()) =
     Inr \<lparr>centroids = \<lparr>n_rows = 1, cols = [[1], [4]]\<rparr>,
          centroidsOther = \<lparr>n_rows = 1, cols = [[1 / 2], [7 / 2]]\<rparr>,
          counts = [3, 3], iteration = 3, policy = ()\<rparr>"
proof -
  have a: "initial_centroids exact (example_km 3) () example_data 2 example_guess True
             = Inr (example_guess, ())"
    by (simp add: initial_centroids_def check_guess_def n_cols_def example_data_def
        example_guess_def)
  have b: "Cluster_loop (example_km 3) example_data 2 (loop_entry (\<lambda>i. 0) 2 example_guess ()) =
     Inr \<lparr>centroids = \<lparr>n_rows = 1, cols = [[1 / 2], [7 / 2]]\<rparr>,
          centroidsOther = \<lparr>n_rows = 1, cols = [[1], [4]]\<rparr>,
          counts = [3, 3], iteration = 3, policy = ()\<rparr>"
    by (simp add: run_simps)
  from returned_centroids_most_recent [OF a b] a b show ?thesis
    by (simp add: steal_def roles_def swap_roles_def)
qed

text \<open>
  C6. When the Lloyd step returns a residual that is NaN or infinite and the empty-cluster
  scan completes, the body completes with \<^verbatim>\<open>cNorm = 1e-4\<close>: no abort comes of the
  anomaly, and the loop goes on unless the counter has reached \<^verbatim>\<open>maxIterations\<close>.
\<close>

theorem nan_residual_keeps_iterating:
  assumes "lloyd_iterate km data st = (r, st1)"
    and "isnan r \<or> isinf r"
    and "empty_clusters km data clusters 0 st1 = Inr st2"
  shows "Cluster_body km data clusters st =
           Inr (Finite sentinel, st2\<lparr>iteration := iteration st + 1\<rparr>) \<and>
         loop_test km (Finite sentinel) (iteration st + 1) =
           (iteration st + 1 \<noteq> maxIterations km) \<and>
         Cluster_loop km data clusters st =
           (if iteration st + 1 = maxIterations km
            then Inr (st2\<lparr>iteration := iteration st + 1\<rparr>)
            else Cluster_loop km data clusters (st2\<lparr>iteration := iteration st + 1\<rparr>))"
proof -
  from lloyd_iterate_iteration [OF assms(1)] empty_clusters_iteration [OF assms(3)]
  have it: "iteration st2 = iteration st"
    by simp
  from assms it have b: "Cluster_body km data clusters st =
      Inr (Finite sentinel, st2\<lparr>iteration := iteration st + 1\<rparr>)"
    by (simp add: Cluster_body_def clamp_residual_def)
  have t: "loop_test km (Finite sentinel) (iteration st + 1) =
      (iteration st + 1 \<noteq> maxIterations km)"
    by (simp add: loop_test_def threshold_def sentinel_def)
  show ?thesis
    using b t by (subst Cluster_loop.simps) simp
qed

theorem nan_residual_keeps_iterating_witness:
  "lloyd_iterate (nan_km 3) example_data nan_state =
     (NaN, nan_state\<lparr>centroidsOther := example_guess\<rparr>) \<and>
   isnan NaN \<and>
   empty_clusters (nan_km 3) example_data 2 0 (nan_state\<lparr>centroidsOther := example_guess\<rparr>) =
     Inr (nan_state\<lparr>centroidsOther := example_guess\<rparr>) \<and>
   Cluster_body (nan_km 3) example_data 2 nan_state =
     Inr (Finite sentinel, nan_state\<lparr>centroidsOther := example_guess, iteration := 1\<rparr>) \<and>
   Cluster_loop (nan_km 3) example_data 2 nan_state =
     Cluster_loop (nan_km 3) example_data 2
       (nan_state\<lparr>centroidsOther := example_guess, iteration := 1\<rparr>)"
proof -
  have a: "lloyd_iterate (nan_km 3) example_data nan_state =
      (NaN, nan_state\<lparr>centroidsOther := example_guess\<rparr>)"
    by (simp add: lloyd_iterate_def nan_km_def nan_state_def)
  have b: "isnan NaN \<or> isinf NaN"
    by simp
  have c: "empty_clusters (nan_km 3) example_data 2 0 (nan_state\<lparr>centroidsOther := example_guess\<rparr>) =
      Inr (nan_state\<lparr>centroidsOther := example_guess\<rparr>)"
    by (simp add: empty_clusters.simps nan_state_def)
  have m: "maxIterations (nan_km 3) = 3"
    by (simp add: nan_km_def example_km_def)
  from nan_residual_keeps_iterating [OF a b c] a c m show ?thesis
    by (simp add: nan_state_def)
qed

text \<open>
  C7. When no guess is supplied and the partitioner returns assignments, every entry of
  every initial centroid is the arithmetic mean of that coordinate over the points
  assigned to the cluster, in the order of the dataset and in the arithmetic of the
  entries (the sum from zero, divided by the number of points), and zero for a cluster
  with no points. With exact arithmetic this is the sum divided by the number.
\<close>

theorem initial_centroids_are_means:
  assumes "partitioner km = GivesAssignments f"
    and "f s data clusters = (assignments, s1)"
    and "wf_mat data"
    and "initial_centroids ar km s data clusters guess False = Inr (cs, s2)"
  shows "s2 = s1 \<and> n_cols cs = clusters \<and> n_rows cs = n_rows data \<and>
    (\<forall>c<clusters. \<forall>r<n_rows data.
       cols cs ! c ! r =
         (let pts = cluster_points data assignments c
          in if pts = [] then ar_zero ar else mean ar (map (\<lambda>p. p ! r) pts))) \<and>
    (\<forall>xs. mean exact xs = sum_list xs / real (length xs))"
proof -
  from assms(1,2,4) have "s2 = s1"
    and "centroids_from_assignments ar data clusters assignments = Inr cs"
    by (auto simp: initial_centroids_def GetInitialAssignmentsOrCentroids_def
        split: sum.splits)
  from centroids_from_assignments_means [OF this(2) assms(3)] \<open>s2 = s1\<close> show ?thesis
    by (simp add: mean_def Let_def mean_exact [unfolded mean_def])
qed

theorem initial_centroids_are_means_witness:
  "partitioner ((example_km 0)\<lparr>partitioner := GivesAssignments one_sided\<rparr>) =
     GivesAssignments one_sided \<and>
   one_sided () gap_data 3 = ([0, 0, 2], ()) \<and>
   wf_mat gap_data \<and>
   initial_centroids exact ((example_km 0)\<lparr>partitioner := GivesAssignments one_sided\<rparr>) ()
       gap_data 3 empty_mat False =
     Inr (\<lparr>n_rows = 2, cols = [[1, 2], [0, 0], [10, 10]]\<rparr>, ()) \<and>
   cluster_points gap_data [0, 0, 2] 0 = [[0, 0], [2, 4]] \<and>
   cluster_points gap_data [0, 0, 2] 1 = [] \<and>
   cols \<lparr>n_rows = 2, cols = [[1, 2], [0, 0], [10, 10]]\<rparr> ! 0 ! 1 =
     (let pts = cluster_points gap_data [0, 0, 2] 0
      in if pts = [] then ar_zero exact else mean exact (map (\<lambda>p. p ! 1) pts)) \<and>
   cols \<lparr>n_rows = 2, cols = [[1, 2], [0, 0], [10, 10]]\<rparr> ! 1 ! 0 =
     (let pts = cluster_points gap_data [0, 0, 2] 1
      in if pts = [] then ar_zero exact else mean exact (map (\<lambda>p. p ! 0) pts)) \<and>
   partitioner int_km = GivesAssignments round_robin \<and>
   round_robin () thirds_data 1 = ([0, 0, 0], ()) \<and>
   wf_mat thirds_data \<and>
   initial_centroids truncating int_km () thirds_data 1 empty_mat False =
     Inr (\<lparr>n_rows = 1, cols = [[0]]\<rparr>, ()) \<and>
   cluster_points thirds_data [0, 0, 0] 0 = [[1], [0], [0]] \<and>
   cols \<lparr>n_rows = 1, cols = [[0]]\<rparr> ! 0 ! 0 =
     (let pts = cluster_points thirds_data [0, 0, 0] 0
      in if pts = [] then ar_zero truncating else mean truncating (map (\<lambda>p. p ! 0) pts))"
proof -
  let ?km = "(example_km 0)\<lparr>partitioner := GivesAssignments one_sided\<rparr>"
  have a: "partitioner ?km = GivesAssignments one_sided"
    by simp
  have b: "one_sided () gap_data 3 = ([0, 0, 2], ())"
    by (simp add: one_sided_def)
  have c: "wf_mat gap_data"
    by (simp add: wf_mat_def gap_data_def)
  have d: "initial_centroids exact ?km () gap_data 3 empty_mat False =
      Inr (\<lparr>n_rows = 2, cols = [[1, 2], [0, 0], [10, 10]]\<rparr>, ())"
    by (simp add: run_simps one_sided_def gap_data_def)
  have e: "cluster_points gap_data [0, 0, 2] 0 = [[0, 0], [2, 4]]"
    "cluster_points gap_data [0, 0, 2] 1 = []"
    by (simp_all add: cluster_points_def gap_data_def n_cols_def)
  from initial_centroids_are_means [OF a b c d]
  have m: "\<forall>c<3. \<forall>r<n_rows gap_data.
      cols \<lparr>n_rows = 2, cols = [[1, 2], [0, 0], [10, 10]]\<rparr> ! c ! r =
        (let pts = cluster_points gap_data [0, 0, 2] c
         in if pts = [] then ar_zero exact else mean exact (map (\<lambda>p. p ! r) pts))"
    by (elim conjE)
  have r: "(1::nat) < n_rows gap_data" "(0::nat) < n_rows gap_data"
    by (simp_all add: gap_data_def)
  have f: "(0::nat) < 3" "(1::nat) < 3"
    by simp_all
  note m1 = m [rule_format, OF f(1) r(1)]
  note m2 = m [rule_format, OF f(2) r(2)]
  have a': "partitioner int_km = GivesAssignments round_robin"
    by (simp add: int_km_def)
  have b': "round_robin () thirds_data 1 = ([0, 0, 0], ())"
    by (simp add: round_robin_def thirds_data_def n_cols_def upt_rec)
  have c': "wf_mat thirds_data"
    by (simp add: wf_mat_def thirds_data_def)
  have d': "initial_centroids truncating int_km () thirds_data 1 empty_mat False =
      Inr (\<lparr>n_rows = 1, cols = [[0]]\<rparr>, ())"
    by (simp add: run_simps int_km_def thirds_data_def truncating_def)
  have e': "cluster_points thirds_data [0, 0, 0] 0 = [[1], [0], [0]]"
    by (simp add: cluster_points_def thirds_data_def n_cols_def upt_rec)
  from initial_centroids_are_means [OF a' b' c' d']
  have m': "\<forall>c<1. \<forall>r<n_rows thirds_data.
      cols \<lparr>n_rows = 1, cols = [[0]]\<rparr> ! c ! r =
        (let pts = cluster_points thirds_data [0, 0, 0] c
         in if pts = [] then ar_zero truncating else mean truncating (map (\<lambda>p. p ! r) pts))"
    by (elim conjE)
  have r': "(0::nat) < n_rows thirds_data"
    by (simp add: thirds_data_def)
  have f': "(0::nat) < 1"
    by simp
  note m3 = m' [rule_format, OF f' r']
  show ?thesis
    by (intro conjI) (rule a, rule b, rule c, rule d, rule e(1), rule e(2), rule m1, rule m2,
        rule a', rule b', rule c', rule d', rule e', rule m3)
qed

text \<open>
  C8 (as the code has it, with the Lloyd step of the specification and a policy that
  leaves empty clusters). If the loop of the first run ends with both buffers equal (the
  last iteration reproduced the centroids it read: residual 0), a second run from the
  returned centroids ends after exactly one iteration and returns the same centroids.
\<close>

theorem rerun_from_fixed_point:
  assumes "lloydStep km = Iterate" and "emptyClusterAction km = AllowEmptyClusters"
    and "initial_centroids ar km s data clusters guess initialGuess = Inr (cs, s')"
    and "Cluster_loop km data clusters (loop_entry uninit clusters cs s') = Inr st"
    and "centroids st = centroidsOther st"
    and "n_cols (centroids st) = clusters" and "n_rows (centroids st) = n_rows data"
  shows "snd (Cluster ar km s uninit data clusters guess initialGuess) = Inr (steal st) \<and>
         (\<exists>st2. snd (Cluster ar km s2 uninit2 data clusters (centroids (steal st)) True) = Inr st2 \<and>
            iteration st2 = 1 \<and> centroids st2 = centroids (steal st))"
proof -
  let ?F = "centroids st"
  let ?m = "metric km"
  from assms(5) have F: "centroids (steal st) = ?F" "centroids (roles st) = ?F"
    "centroidsOther (roles st) = ?F"
    by (simp_all add: steal_def roles_def swap_roles_def)
  from Cluster_loop_last [OF assms(4)] obtain prev c where
    "Cluster_body km data clusters prev = Inr (c, st)"
    by blast
  from Cluster_body_update [OF assms(1,2) this] F have fp: "lloyd_update ?m data ?F = ?F"
    by simp
  let ?e = "loop_entry uninit2 clusters ?F s2"
  let ?st1 = "?e\<lparr>centroidsOther := ?F, counts := snd (lloyd_sums ?m data ?F), policy := s2\<rparr>"
  have l: "lloyd_iterate km data ?e = (Finite 0, ?st1)"
    using assms(1) fp
    by (simp add: lloyd_iterate_def Iterate_def Let_def loop_entry_def frobenius_self)
  have len: "clusters \<le> length (counts ?st1)"
    using assms(6) by (simp add: length_lloyd_sums)
  from l len empty_clusters_allowed [OF assms(2), of data clusters 0 ?st1]
  have b: "Cluster_body km data clusters ?e = Inr (Finite 0, ?st1\<lparr>iteration := 1\<rparr>)"
    by (simp add: Cluster_body_def clamp_residual_def loop_entry_def)
  have lp: "Cluster_loop km data clusters ?e = Inr (?st1\<lparr>iteration := 1\<rparr>)"
    using b by (subst Cluster_loop.simps) (simp add: loop_test_def threshold_def)
  have ic: "initial_centroids ar km s2 data clusters ?F True = Inr (?F, s2)"
    using assms(6,7) by (simp add: initial_centroids_def check_guess_def)
  have "snd (Cluster ar km s2 uninit2 data clusters ?F True) = Inr (steal (?st1\<lparr>iteration := 1\<rparr>))"
    using ic lp by (simp add: Cluster_def Cluster_finish_def)
  moreover have "iteration (steal (?st1\<lparr>iteration := 1\<rparr>)) = 1"
    "centroids (steal (?st1\<lparr>iteration := 1\<rparr>)) = ?F"
    by (simp_all add: steal_def)
  moreover have "snd (Cluster ar km s uninit data clusters guess initialGuess) = Inr (steal st)"
    using assms(3,4) by (simp add: Cluster_def Cluster_finish_def)
  ultimately show ?thesis
    by (simp add: F)
qed

theorem rerun_from_fixed_point_witness:
  "lloydStep (example_km 0) = Iterate \<and>
   emptyClusterAction (example_km 0) = AllowEmptyClusters \<and>
   initial_centroids exact (example_km 0) () example_data 2 example_guess True
     = Inr (example_guess, ()) \<and>
   Cluster_loop (example_km 0) example_data 2 (loop_entry (\<lambda>i. 0) 2 example_guess ())
     = Inr example_converged \<and>
   centroids example_converged = centroidsOther example_converged \<and>
   n_cols (centroids example_converged) = 2 \<and>
   n_rows (centroids example_converged) = n_rows example_data \<and>
   (\<exists>st2. snd (Cluster exact (example_km 0) () (\<lambda>i. 0) example_data 2
                   (centroids (steal example_converged)) True) = Inr st2 \<and>
      iteration st2 = 1 \<and> centroids st2 = centroids (steal example_converged))"
proof -
  have a: "lloydStep (example_km 0) = Iterate"
    by (simp add: example_km_def)
  have b: "emptyClusterAction (example_km 0) = AllowEmptyClusters"
    by (simp add: example_km_def)
  have c: "initial_centroids exact (example_km 0) () example_data 2 example_guess True
      = Inr (example_guess, ())"
    by (simp add: initial_centroids_def check_guess_def n_cols_def example_data_def
        example_guess_def)
  have d: "Cluster_loop (example_km 0) example_data 2 (loop_entry (\<lambda>i. 0) 2 example_guess ())
      = Inr example_converged"
    by (simp add: run_simps example_converged_def)
  have e: "centroids example_converged = centroidsOther example_converged"
    by (simp add: example_converged_def)
  have f: "n_cols (centroids example_converged) = 2"
    by (simp add: example_converged_def n_cols_def)
  have g: "n_rows (centroids example_converged) = n_rows example_data"
    by (simp add: example_converged_def example_data_def)
  note t = rerun_from_fixed_point [OF a b c d e f g, where ?s2.0 = "()" and ?uninit2.0 = "\<lambda>i. 0"]
  show ?thesis
    by (intro conjI) (rule a, rule b, rule c, rule d, rule e, rule f, rule g,
        rule conjunct2 [OF t])
qed

text \<open>
  The claim as stated fails. From \<open>near_guess\<close> the first run converges after one
  iteration (residual one millionth) to the centroids 0 and 2. From these the point 1 is
  a tie and goes to the first cluster: the second run moves the centroids to 1/2 and 3
  (residual above the threshold) and needs two iterations.
\<close>

theorem rerun_needs_two_iterations:
  "Cluster exact (example_km 1000) () (\<lambda>i. 0) tie_data 2 near_guess True =
     ([], Inr \<lparr>centroids = \<lparr>n_rows = 1, cols = [[0], [2]]\<rparr>, centroidsOther = empty_mat,
               counts = [1, 2], iteration = 1, policy = ()\<rparr>) \<and>
   Cluster exact (example_km 1000) () (\<lambda>i. 0) tie_data 2 \<lparr>n_rows = 1, cols = [[0], [2]]\<rparr> True =
     ([], Inr \<lparr>centroids = \<lparr>n_rows = 1, cols = [[1 / 2], [3]]\<rparr>,
               centroidsOther = \<lparr>n_rows = 1, cols = [[1 / 2], [3]]\<rparr>,
               counts = [2, 1], iteration = 2, policy = ()\<rparr>)"
  by (simp add: run_simps tie_data_def near_guess_def)

text \<open>
  C9. With the assignment-guess flag set and an assignment row of the right length, the
  call is the run from the centroids recomputed from the assignments: the supplied
  centroid matrix and the centroid-guess flag play no part, and the recomputed centroids
  pass the validation and enter the loop as they are.
\<close>

theorem assignment_guess_takes_precedence:
  assumes "length assignments = n_cols data"
  shows "Cluster_assignments ar km s uninit debug data clusters assignments guess True icg =
           (case centroids_from_assignments ar data clusters assignments of
              Inl (e, c) \<Rightarrow> ([], Inl (e, c, assignments))
            | Inr c \<Rightarrow> Cluster_and_assign ar km s uninit debug data clusters assignments c True) \<and>
         Cluster_assignments ar km s uninit debug data clusters assignments guess True icg =
           Cluster_assignments ar km s uninit debug data clusters assignments guess' True icg' \<and>
         (\<forall>c. centroids_from_assignments ar data clusters assignments = Inr c \<longrightarrow>
              initial_centroids ar km s data clusters c True = Inr (c, s))"
  using assms
  by (auto simp: Cluster_assignments_def initial_centroids_def
      dest: shape_after_assignments split: sum.splits)

theorem assignment_guess_takes_precedence_witness:
  "length [0, 1, 0, 1, 0, 1 :: nat] = n_cols example_data \<and>
   centroids_from_assignments exact example_data 2 [0, 1, 0, 1, 0, 1] =
     Inr \<lparr>n_rows = 1, cols = [[2], [3]]\<rparr> \<and>
   Cluster_assignments exact (example_km 0) () (\<lambda>i. 0) False example_data 2 [0, 1, 0, 1, 0, 1]
       wide_guess True True =
     Cluster_assignments exact (example_km 0) () (\<lambda>i. 0) False example_data 2 [0, 1, 0, 1, 0, 1]
       example_guess True False \<and>
   Cluster_assignments exact (example_km 0) () (\<lambda>i. 0) False example_data 2 [0, 1, 0, 1, 0, 1]
       wide_guess True True =
     Cluster_and_assign exact (example_km 0) () (\<lambda>i. 0) False example_data 2 [0, 1, 0, 1, 0, 1]
       \<lparr>n_rows = 1, cols = [[2], [3]]\<rparr> True"
proof -
  have a: "length [0, 1, 0, 1, 0, 1 :: nat] = n_cols example_data"
    by (simp add: example_data_def n_cols_def)
  have b: "centroids_from_assignments exact example_data 2 [0, 1, 0, 1, 0, 1] =
      Inr \<lparr>n_rows = 1, cols = [[2], [3]]\<rparr>"
    by (simp add: run_simps)
  note t = assignment_guess_takes_precedence [OF a, where km = "example_km 0" and s = "()"
      and uninit = "\<lambda>i. 0" and debug = False and clusters = 2 and guess = wide_guess
      and icg = True and guess' = example_guess and icg' = False]
  from t have c: "Cluster_assignments exact (example_km 0) () (\<lambda>i. 0) False example_data 2
       [0, 1, 0, 1, 0, 1] wide_guess True True =
     Cluster_assignments exact (example_km 0) () (\<lambda>i. 0) False example_data 2 [0, 1, 0, 1, 0, 1]
       example_guess True False"
    by (rule conjunct1 [OF conjunct2])
  from t b have d: "Cluster_assignments exact (example_km 0) () (\<lambda>i. 0) False example_data 2
       [0, 1, 0, 1, 0, 1] wide_guess True True =
     Cluster_and_assign exact (example_km 0) () (\<lambda>i. 0) False example_data 2 [0, 1, 0, 1, 0, 1]
       \<lparr>n_rows = 1, cols = [[2], [3]]\<rparr> True"
    by simp
  show ?thesis
    by (intro conjI) (rule a, rule b, rule c, rule d)
qed




end
